theory Spec2Isabelle
  imports Complex_Main
begin

text \<open>
  A model of the grade-tonnage dashboard: the cleaning of the mineral sites
  (\<open>models/geo.py\<close>), the greedy proximity aggregation and the dataset of the
  grade-tonnage figure (\<open>components/cards/gt_model.py\<close>) and the clean-up of the CSV
  export (\<open>pages/gtmodel.py\<close>), followed by the properties proved about them.
\<close>

section \<open>Python values, errors and string operations\<close>

text \<open>
  Every exception the modelled code can raise is a value: a function that can raise returns
  \<open>py_error + 'a\<close>, with \<open>Inl\<close> the exception. Floats are modelled as real numbers.
\<close>

datatype py_error = TypeError | ZeroDivisionError | KeyError | IndexError

text \<open>\<open>sep.join(xs)\<close>.\<close>

fun join :: "string \<Rightarrow> string list \<Rightarrow> string" where
  "join sep [] = []"
| "join sep [x] = x"
| "join sep (x # y # ys) = x @ sep @ join sep (y # ys)"

text \<open>
  \<open>s.replace(old, new)\<close>: the occurrences of \<open>old\<close> are found from the left and do
  not overlap; an empty \<open>old\<close> matches before every character and at the end.
\<close>

fun py_replace :: "string \<Rightarrow> string \<Rightarrow> string \<Rightarrow> string" where
  "py_replace [] new s = new @ concat (map (\<lambda>c. c # new) s)"
| "py_replace (a # as) new [] = []"
| "py_replace (a # as) new (c # cs) =
     (if take (Suc (length as)) (c # cs) = a # as
      then new @ py_replace (a # as) new (drop (length as) cs)
      else c # py_replace (a # as) new cs)"

text \<open>\<open>sub in s\<close> on strings.\<close>

fun contains :: "string \<Rightarrow> string \<Rightarrow> bool" where
  "contains sub [] = (sub = [])"
| "contains sub (c # cs) = (take (length sub) (c # cs) = sub \<or> contains sub cs)"

text \<open>\<open>s.count(sub)\<close>: the number of non-overlapping occurrences, found from the left.\<close>

fun py_count :: "string \<Rightarrow> string \<Rightarrow> nat" where
  "py_count [] s = Suc (length s)"
| "py_count (a # as) [] = 0"
| "py_count (a # as) (c # cs) =
     (if take (Suc (length as)) (c # cs) = a # as
      then Suc (py_count (a # as) (drop (length as) cs))
      else py_count (a # as) cs)"


section \<open>models/geo.py: GeoMineral.clean\_and\_fix\<close>

text \<open>
  The raw data is a list of JSON objects. A numeric field of the grade-tonnage object is
  absent (\<open>None\<close> here), \<open>null\<close> or a number; the other keys that the code reads
  without a test are taken to be present.
\<close>

datatype json_number = Null | Number real

record location =
  loc_country :: "string list option"
  loc_state_or_province :: "string list option"
  loc_lat :: "real option"
  loc_lon :: "real option"

record deposit_type_candidate =
  dt_id :: string
  dt_confidence :: real
  dt_source :: string

record grade_tonnage =
  gt_commodity :: string
  gt_total_grade :: "json_number option"
  gt_total_tonnage :: "json_number option"
  gt_total_contained_metal :: "json_number option"

record mineral_site =
  site_id :: string
  site_name :: string
  site_type :: string
  site_rank :: string
  site_location :: "location option"
  site_deposit_types :: "deposit_type_candidate list"
  site_grade_tonnage :: "grade_tonnage list"

record deposit_details =
  details_name :: string
  details_group :: string
  details_environment :: string

text \<open>\<open>self.data_cache\<close>: the name of each country and state, the details of each deposit type.\<close>

record data_cache =
  countries :: "string \<rightharpoonup> string"
  states_or_provinces :: "string \<rightharpoonup> string"
  deposit_types :: "string \<rightharpoonup> deposit_details"

record combined_data =
  ms :: string
  ms_name :: string
  ms_type :: string
  ms_rank :: string
  country :: "string option"
  state_or_province :: "string option"
  lat :: "real option"
  lon :: "real option"
  top1_deposit_name :: string
  top1_deposit_group :: string
  top1_deposit_environment :: string
  top1_deposit_confidence :: real
  top1_deposit_source :: string
  commodity :: string
  total_grade :: "json_number option"
  total_tonnage :: "json_number option"
  total_contained_metal :: "json_number option"

text \<open>The truth value of \<open>combined_data.get(key)\<close>: false when absent, \<open>None\<close> or zero.\<close>

definition py_truthy :: "json_number option \<Rightarrow> bool" where
  "py_truthy v = (case v of Some (Number x) \<Rightarrow> x \<noteq> 0 | _ \<Rightarrow> False)"

text \<open>
  The name of the first listed country (or state) when the location has a non-empty list
  whose first entry is in the cache, else \<open>None\<close>.
\<close>

definition first_name :: "(string \<rightharpoonup> string) \<Rightarrow> string list option \<Rightarrow> string option" where
  "first_name cache v = (case v of Some (k # _) \<Rightarrow> cache k | _ \<Rightarrow> None)"

text \<open>\<open>max(xs, key=lambda x: x["confidence"])\<close>: the first candidate of highest confidence.\<close>

fun max_confidence ::
  "deposit_type_candidate \<Rightarrow> deposit_type_candidate list \<Rightarrow> deposit_type_candidate" where
  "max_confidence best [] = best"
| "max_confidence best (x # xs) =
     max_confidence (if dt_confidence best < dt_confidence x then x else best) xs"

text \<open>The grade-tonnage columns: set only when the key \<open>total_grade\<close> is present.\<close>

definition gt_details ::
  "grade_tonnage \<Rightarrow>
   py_error + (json_number option \<times> json_number option \<times> json_number option)" where
  "gt_details g0 =
     (case gt_total_grade g0 of
        None \<Rightarrow> Inr (None, None, None)
      | Some g \<Rightarrow>
          (case gt_total_tonnage g0 of
             None \<Rightarrow> Inl KeyError
           | Some t \<Rightarrow>
               (case gt_total_contained_metal g0 of
                  None \<Rightarrow> Inl KeyError
                | Some m \<Rightarrow> Inr (Some g, Some t, Some m))))"

text \<open>
  The body of the loop for one site: \<open>Inr None\<close> is \<open>continue\<close>, \<open>Inr (Some c)\<close> appends
  \<open>c\<close> to the results.
\<close>

definition clean_site :: "data_cache \<Rightarrow> mineral_site \<Rightarrow> py_error + combined_data option" where
  "clean_site cache data =
     (case site_deposit_types data of
        [] \<Rightarrow> Inr None
      | d0 # ds \<Rightarrow>
          (let highest_confidence_deposit = max_confidence d0 ds in
           case deposit_types cache (dt_id highest_confidence_deposit) of
             None \<Rightarrow> Inr None
           | Some details \<Rightarrow>
               (case site_grade_tonnage data of
                  [] \<Rightarrow> Inl IndexError
                | g0 # _ \<Rightarrow>
                    (case gt_details g0 of
                       Inl e \<Rightarrow> Inl e
                     | Inr (grade, tonnage, metal) \<Rightarrow>
                         Inr (Some
                           \<lparr> ms = ''/derived'' @ ''/'' @ site_id data,
                             ms_name = site_name data,
                             ms_type = site_type data,
                             ms_rank = site_rank data,
                             country =
                               (case site_location data of
                                  None \<Rightarrow> None
                                | Some l \<Rightarrow> first_name (countries cache) (loc_country l)),
                             state_or_province =
                               (case site_location data of
                                  None \<Rightarrow> None
                                | Some l \<Rightarrow>
                                    first_name (states_or_provinces cache)
                                      (loc_state_or_province l)),
                             lat = (case site_location data of None \<Rightarrow> None | Some l \<Rightarrow> loc_lat l),
                             lon = (case site_location data of None \<Rightarrow> None | Some l \<Rightarrow> loc_lon l),
                             top1_deposit_name =
                               (if \<not> py_truthy tonnage \<or> \<not> py_truthy grade then ''Unknown''
                                else details_name details),
                             top1_deposit_group = details_group details,
                             top1_deposit_environment = details_environment details,
                             top1_deposit_confidence = dt_confidence highest_confidence_deposit,
                             top1_deposit_source = dt_source highest_confidence_deposit,
                             commodity = gt_commodity g0,
                             total_grade = grade,
                             total_tonnage = tonnage,
                             total_contained_metal = metal \<rparr>)))))"

fun clean_and_fix :: "data_cache \<Rightarrow> mineral_site list \<Rightarrow> py_error + combined_data list" where
  "clean_and_fix cache [] = Inr []"
| "clean_and_fix cache (data # raw_data) =
     (case clean_site cache data of
        Inl e \<Rightarrow> Inl e
      | Inr None \<Rightarrow> clean_and_fix cache raw_data
      | Inr (Some c) \<Rightarrow>
          (case clean_and_fix cache raw_data of
             Inl e \<Rightarrow> Inl e
           | Inr results \<Rightarrow> Inr (c # results)))"


section \<open>components/cards/gt\_model.py: the greedy aggregation\<close>

subsection \<open>Data\<close>

text \<open>
  A row of the aggregated table has the eight columns that the aggregation writes; a row
  of \<open>gt.df\<close> has these columns and \<open>total_contained_metal\<close>. A DataFrame is the list
  of its rows in order, each with its index label; the index labels of \<open>gt.df\<close> are
  distinct.
\<close>

record gt_row =
  total_grade :: real
  total_tonnage :: real
  ms_name :: string
  ms :: string
  commodity :: string
  top1_deposit_name :: string
  lat :: "real option"
  lon :: "real option"

record deposit = gt_row +
  total_contained_metal :: real

type_synonym dataframe = "(nat \<times> deposit) list"

text \<open>
  The distance cache is a dict from pairs of index labels to a distance or \<open>None\<close>:
  its items in insertion order. \<open>distances.get((i, j))\<close> is \<open>map_of distances (i, j)\<close>.
\<close>

type_synonym distances = "((nat \<times> nat) \<times> real option) list"

subsection \<open>Library calls\<close>

text \<open>
  \<open>sorted(distances.items(), key=lambda x: x[1])\<close>: a stable sort on the distance.
  Comparing \<open>None\<close> with a number or with \<open>None\<close> raises \<open>TypeError\<close>, and a sort
  of two or more items compares every item at least once.
\<close>

definition distance_key :: "(nat \<times> nat) \<times> real option \<Rightarrow> real" where
  "distance_key kv = (case snd kv of None \<Rightarrow> 0 | Some d \<Rightarrow> d)"

definition sorted_by_distance :: "distances \<Rightarrow> py_error + distances" where
  "sorted_by_distance ds =
     (if 2 \<le> length ds \<and> None \<in> set (map snd ds) then Inl TypeError
      else Inr (sort_key distance_key ds))"

text \<open>\<open>df.loc[idx]\<close> and \<open>df.loc[group]\<close> on a frame with distinct index labels.\<close>

definition df_loc :: "dataframe \<Rightarrow> nat \<Rightarrow> py_error + deposit" where
  "df_loc df idx = (case map_of df idx of None \<Rightarrow> Inl KeyError | Some r \<Rightarrow> Inr r)"

fun df_loc_list :: "dataframe \<Rightarrow> nat list \<Rightarrow> py_error + deposit list" where
  "df_loc_list df [] = Inr []"
| "df_loc_list df (idx # idxs) =
     (case df_loc df idx of
        Inl e \<Rightarrow> Inl e
      | Inr r \<Rightarrow> (case df_loc_list df idxs of Inl e \<Rightarrow> Inl e | Inr rs \<Rightarrow> Inr (r # rs)))"

text \<open>
  \<open>np.average(a, weights=w)\<close>: numpy raises \<open>ZeroDivisionError\<close> when the weights sum
  to zero.
\<close>

definition np_average :: "real list \<Rightarrow> real list \<Rightarrow> py_error + real" where
  "np_average a w =
     (if sum_list w = 0 then Inl ZeroDivisionError
      else Inr (sum_list (map (\<lambda>(v, wt). v * wt) (zip a w)) / sum_list w))"

subsection \<open>greedy\_weighted\_avg\_aggregation\<close>

definition valid_indices :: "dataframe \<Rightarrow> nat set" where
  "valid_indices df = set (map fst df)"

definition sorted_row_indices :: "nat set \<Rightarrow> distances \<Rightarrow> nat list" where
  "sorted_row_indices valid sorted_distances =
     concat (map (\<lambda>(pair, _). filter (\<lambda>index. index \<in> valid) [fst pair, snd pair])
       sorted_distances)"

text \<open>
  The inner loop \<open>for j in sorted_row_indices\<close> for the seed \<open>i\<close>: the state is the
  group built so far and the set of processed indices.
\<close>

fun scan_nearby ::
  "distances \<Rightarrow> real \<Rightarrow> nat set \<Rightarrow> nat \<Rightarrow> nat list \<Rightarrow> nat list \<times> nat set \<Rightarrow> nat list \<times> nat set"
where
  "scan_nearby ds thr valid i [] (grp, processed) = (grp, processed)"
| "scan_nearby ds thr valid i (j # js) (grp, processed) =
     (if i \<noteq> j \<and> j \<notin> processed then
        (case map_of ds (i, j) of
           Some (Some distance) \<Rightarrow>
             if distance < thr \<and> j \<in> valid
             then scan_nearby ds thr valid i js (grp @ [j], insert j processed)
             else scan_nearby ds thr valid i js (grp, processed)
         | _ \<Rightarrow> scan_nearby ds thr valid i js (grp, processed))
      else scan_nearby ds thr valid i js (grp, processed))"

text \<open>The combined name of a group: lines 77 to 90.\<close>

definition combine :: "string list \<Rightarrow> string" where
  "combine names =
     (if length names > 1 then '':: '' @ join '':: '' names else join '':: '' names)"

text \<open>The row of one finished group: lines 72 to 110.\<close>

definition aggregate_group :: "dataframe \<Rightarrow> nat list \<Rightarrow> py_error + gt_row" where
  "aggregate_group df grp =
     (case df_loc_list df grp of
        Inl e \<Rightarrow> Inl e
      | Inr [] \<Rightarrow> Inl IndexError
      | Inr (r0 # rs) \<Rightarrow>
          (case np_average (map total_grade (r0 # rs)) (map total_tonnage (r0 # rs)) of
             Inl e \<Rightarrow> Inl e
           | Inr weighted_grade \<Rightarrow>
               Inr \<lparr> total_grade = weighted_grade,
                     total_tonnage = sum_list (map total_tonnage (r0 # rs)),
                     ms_name = combine (map ms_name (r0 # rs)),
                     ms = combine (map ms (r0 # rs)),
                     commodity = commodity r0,
                     top1_deposit_name = top1_deposit_name r0,
                     lat = lat r0,
                     lon = lon r0 \<rparr>))"

text \<open>
  The outer loop \<open>for i in sorted_row_indices\<close>. Each appended row is kept together
  with the group it was computed from, so that properties of the members can be stated;
  the DataFrame the source returns is the list of the rows.
\<close>

fun aggregate_loop ::
  "dataframe \<Rightarrow> distances \<Rightarrow> real \<Rightarrow> nat list \<Rightarrow> nat list \<Rightarrow> nat set \<Rightarrow>
   (nat list \<times> gt_row) list \<Rightarrow> py_error + (nat list \<times> gt_row) list"
where
  "aggregate_loop df ds thr sri [] processed aggregated_data = Inr aggregated_data"
| "aggregate_loop df ds thr sri (i # rest) processed aggregated_data =
     (if i \<in> processed then aggregate_loop df ds thr sri rest processed aggregated_data
      else
        (case scan_nearby ds thr (valid_indices df) i sri ([i], insert i processed) of
           (group0, processed') \<Rightarrow>
             (let grp = filter (\<lambda>idx. idx \<in> valid_indices df) group0 in
              if grp = [] then aggregate_loop df ds thr sri rest processed' aggregated_data
              else
                (case aggregate_group df grp of
                   Inl e \<Rightarrow> Inl e
                 | Inr row \<Rightarrow>
                     aggregate_loop df ds thr sri rest processed'
                       (aggregated_data @ [(grp, row)])))))"

definition aggregation_with_members ::
  "dataframe \<Rightarrow> distances \<Rightarrow> real \<Rightarrow> py_error + (nat list \<times> gt_row) list"
where
  "aggregation_with_members df ds proximity_threshold =
     (case sorted_by_distance ds of
        Inl e \<Rightarrow> Inl e
      | Inr sorted_distances \<Rightarrow>
          aggregate_loop df ds proximity_threshold
            (sorted_row_indices (valid_indices df) sorted_distances)
            (sorted_row_indices (valid_indices df) sorted_distances) {} [])"

definition greedy_weighted_avg_aggregation ::
  "dataframe \<Rightarrow> distances \<Rightarrow> real \<Rightarrow> py_error + gt_row list"
where
  "greedy_weighted_avg_aggregation df ds proximity_threshold =
     (case aggregation_with_members df ds proximity_threshold of
        Inl e \<Rightarrow> Inl e
      | Inr aggregated_data \<Rightarrow> Inr (map snd aggregated_data))"

text \<open>
  The groups alone: the outer loop with the computation of the rows left out. It is used
  to speak of the groups that the loop forms, also when a row raises.
\<close>

fun groups_loop ::
  "distances \<Rightarrow> real \<Rightarrow> nat set \<Rightarrow> nat list \<Rightarrow> nat list \<Rightarrow> nat set \<Rightarrow> nat list list"
where
  "groups_loop ds thr valid sri [] processed = []"
| "groups_loop ds thr valid sri (i # rest) processed =
     (if i \<in> processed then groups_loop ds thr valid sri rest processed
      else
        (case scan_nearby ds thr valid i sri ([i], insert i processed) of
           (group0, processed') \<Rightarrow>
             (let grp = filter (\<lambda>idx. idx \<in> valid) group0 in
              if grp = [] then groups_loop ds thr valid sri rest processed'
              else grp # groups_loop ds thr valid sri rest processed')))"

definition cluster_groups :: "dataframe \<Rightarrow> distances \<Rightarrow> real \<Rightarrow> py_error + nat list list" where
  "cluster_groups df ds proximity_threshold =
     (case sorted_by_distance ds of
        Inl e \<Rightarrow> Inl e
      | Inr sorted_distances \<Rightarrow>
          Inr (groups_loop ds proximity_threshold (valid_indices df)
            (sorted_row_indices (valid_indices df) sorted_distances)
            (sorted_row_indices (valid_indices df) sorted_distances) {}))"

text \<open>The index labels that occur in a key of the distance cache.\<close>

definition cache_indices :: "distances \<Rightarrow> nat set" where
  "cache_indices ds = fst ` fst ` set ds \<union> snd ` fst ` set ds"

subsection \<open>get\_gt\_model\<close>

text \<open>
  An entry of \<open>gt.aggregated_df\<close> is the filtered \<open>gt.df\<close> itself when the proximity
  is 0 and a table of aggregated rows otherwise.
\<close>

datatype frame = Records dataframe | Clusters "gt_row list"

text \<open>
  A scatter trace of one deposit type: its name is written from the deposit type and the
  count of its records in \<open>gt.df\<close>.
\<close>

record marker_trace =
  trace_deposit_type :: string
  trace_deposit_count :: nat
  trace_x :: "real list"
  trace_y :: "real list"
  trace_text :: "string list"
  trace_customdata :: "string list"

definition df_filtered :: "dataframe \<Rightarrow> string \<Rightarrow> dataframe" where
  "df_filtered df d_type = filter (\<lambda>(idx, r). top1_deposit_name r = d_type) df"

text \<open>
  The columns read for the trace. \<open>pd.DataFrame([])\<close> has no column, so reading one from
  an aggregation that appended no row raises \<open>KeyError\<close>.
\<close>

definition plotted :: "'a gt_row_scheme \<Rightarrow> real \<times> real \<times> string \<times> string" where
  "plotted r = (total_tonnage r, total_grade r, ms_name r, commodity r)"

definition plot_columns :: "frame \<Rightarrow> py_error + (real \<times> real \<times> string \<times> string) list" where
  "plot_columns f =
     (case f of
        Records df \<Rightarrow> Inr (map (\<lambda>(idx, r). plotted r) df)
      | Clusters rows \<Rightarrow> if rows = [] then Inl KeyError else Inr (map plotted rows))"

text \<open>\<open>gt.data_cache["commodities"][x]["name"]\<close> for each commodity of the column.\<close>

fun commodity_names :: "(string \<rightharpoonup> string) \<Rightarrow> string list \<Rightarrow> py_error + string list" where
  "commodity_names cache [] = Inr []"
| "commodity_names cache (x # xs) =
     (case cache x of
        None \<Rightarrow> Inl KeyError
      | Some n \<Rightarrow>
          (case commodity_names cache xs of Inl e \<Rightarrow> Inl e | Inr ns \<Rightarrow> Inr (n # ns)))"

definition make_trace ::
  "(string \<rightharpoonup> string) \<Rightarrow> string \<Rightarrow> nat \<Rightarrow> frame \<Rightarrow> py_error + marker_trace" where
  "make_trace cache d_type deposit_count aggregated_df =
     (case plot_columns aggregated_df of
        Inl e \<Rightarrow> Inl e
      | Inr cols \<Rightarrow>
          (case commodity_names cache (map (\<lambda>(t, g, n, c). c) cols) of
             Inl e \<Rightarrow> Inl e
           | Inr names \<Rightarrow>
               Inr \<lparr> trace_deposit_type = d_type,
                     trace_deposit_count = deposit_count,
                     trace_x = map (\<lambda>(t, g, n, c). t) cols,
                     trace_y = map (\<lambda>(t, g, n, c). g) cols,
                     trace_text = map (\<lambda>(t, g, n, c). py_replace ''::'' ''<br>'' n) cols,
                     trace_customdata = names \<rparr>))"

text \<open>Lines 137 to 140: \<open>"Unknown"\<close> is moved to the end of the labels.\<close>

definition unknown_last :: "string list \<Rightarrow> string list" where
  "unknown_last unique_labels =
     (if ''Unknown'' \<in> set unique_labels
      then remove1 ''Unknown'' unique_labels @ [''Unknown'']
      else unique_labels)"

text \<open>
  The loop \<open>for d_type in unique_labels\<close>; the state is \<open>gt.aggregated_df\<close> and the
  traces added to the figure.
\<close>

fun deposit_traces ::
  "(string \<rightharpoonup> string) \<Rightarrow> dataframe \<Rightarrow> distances \<Rightarrow> real \<Rightarrow> string list \<Rightarrow>
   frame list \<times> marker_trace list \<Rightarrow> py_error + frame list \<times> marker_trace list"
where
  "deposit_traces cache df ds proximity_value [] (frames, traces) = Inr (frames, traces)"
| "deposit_traces cache df ds proximity_value (d_type # labels) (frames, traces) =
     (if proximity_value \<noteq> 0 \<and> d_type = ''Unknown''
      then deposit_traces cache df ds proximity_value labels (frames, traces)
      else
        (case (if proximity_value \<noteq> 0
               then (case greedy_weighted_avg_aggregation (df_filtered df d_type) ds
                            proximity_value of
                       Inl e \<Rightarrow> Inl e
                     | Inr rows \<Rightarrow> Inr (Clusters rows))
               else Inr (Records (df_filtered df d_type))) of
           Inl e \<Rightarrow> Inl e
         | Inr aggregated_df \<Rightarrow>
             (case make_trace cache d_type (length (df_filtered df d_type)) aggregated_df of
                Inl e \<Rightarrow> Inl e
              | Inr trace \<Rightarrow>
                  deposit_traces cache df ds proximity_value labels
                    (frames @ [aggregated_df], traces @ [trace]))))"

subsection \<open>Guide curves\<close>

text \<open>
  \<open>np.logspace(start, stop, num)\<close> for \<open>num > 1\<close>: ten to the power of \<open>num\<close> evenly
  spaced exponents from \<open>start\<close> to \<open>stop\<close>. numpy computes these powers and the
  quotients below in IEEE doubles; the values here are the real numbers that the doubles
  round, so nothing that depends on the rounding is stated of them.
\<close>

definition np_logspace :: "real \<Rightarrow> real \<Rightarrow> nat \<Rightarrow> real list" where
  "np_logspace start stop num =
     map (\<lambda>k. 10 powr (start + real k * ((stop - start) / real (num - 1)))) [0..<num]"

text \<open>
  A guide trace: the tonnage values are passed as \<open>y\<close> and the grade values as \<open>x\<close>; the
  hover text shows \<open>metal_content / 100\<close>.
\<close>

record guide_trace =
  guide_y :: "real list"
  guide_x :: "real list"
  guide_contained_metal :: real

definition metal_contents :: "real list" where
  "metal_contents = np_logspace (-9) 10 20"

definition tonnage_range :: "real list" where
  "tonnage_range = np_logspace (-8) 8 100"

definition grade_values :: "real \<Rightarrow> real list" where
  "grade_values metal_content = map (\<lambda>t. metal_content / t) tonnage_range"

definition guide_curve :: "real \<Rightarrow> guide_trace" where
  "guide_curve metal_content =
     \<lparr> guide_y = tonnage_range,
       guide_x = grade_values metal_content,
       guide_contained_metal = metal_content / 100 \<rparr>"

definition guide_curves :: "guide_trace list" where
  "guide_curves = map guide_curve metal_contents"

text \<open>
  The dataset of \<open>get_gt_model\<close>: \<open>gt.aggregated_df\<close>, the deposit-type traces and the
  guide traces. \<open>ranked\<close> is the list of the deposit types of \<open>gt.df\<close> in the order of
  lines 126 to 135 (pandas' \<open>groupby\<close> and \<open>sort_values\<close>); the layout of the figure and
  the visibility of the traces do not change the dataset and are left out.
\<close>

definition get_gt_model ::
  "(string \<rightharpoonup> string) \<Rightarrow> dataframe \<Rightarrow> distances \<Rightarrow> string list \<Rightarrow> real \<Rightarrow>
   py_error + frame list \<times> marker_trace list \<times> guide_trace list"
where
  "get_gt_model cache df ds ranked proximity_value =
     (case deposit_traces cache df ds proximity_value (unknown_last ranked) ([], []) of
        Inl e \<Rightarrow> Inl e
      | Inr (frames, traces) \<Rightarrow> Inr (frames, traces, guide_curves))"


section \<open>pages/gtmodel.py: download\_csv\<close>

text \<open>The clean-up of the \<open>ms_name\<close> and \<open>ms\<close> columns: lines 458 to 464.\<close>

definition clean_text :: "string \<Rightarrow> string" where
  "clean_text x = (if contains ''::'' x then py_replace ''::'' '','' (drop 2 x) else x)"

text \<open>The rows of a frame, with the eight columns that an aggregated row has.\<close>

definition exported_columns :: "deposit \<Rightarrow> gt_row" where
  "exported_columns r =
     \<lparr> total_grade = total_grade r, total_tonnage = total_tonnage r, ms_name = ms_name r,
       ms = ms r, commodity = commodity r, top1_deposit_name = top1_deposit_name r,
       lat = lat r, lon = lon r \<rparr>"

definition frame_rows :: "frame \<Rightarrow> gt_row list" where
  "frame_rows f =
     (case f of Records df \<Rightarrow> map (\<lambda>(idx, r). exported_columns r) df | Clusters rows \<Rightarrow> rows)"

text \<open>
  Lines 423 to 425 rebuild every frame from its JSON text with \<open>pd.read_json\<close>. A cell
  of a text column of such a frame is a string (\<open>Text\<close>), or a number (\<open>Num\<close>) or
  \<open>NaN\<close> (\<open>Nan\<close>) when pandas has read the column as numbers, as it does for a column
  of names that are all digits. A cell of a numeric column is a number or \<open>NaN\<close>
  (\<open>None\<close> here).
\<close>

datatype cell = Text string | Num real | Nan

text \<open>
  A row of the eight selected columns, under the names that line 466 gives them:
  \<open>ms\<close> is the site URL, \<open>ms_name\<close> the site name, \<open>top1_deposit_name\<close> the deposit
  name.
\<close>

record csv_row =
  mineral_site_url :: cell
  mineral_site_name :: cell
  csv_commodity :: cell
  deposit_name :: cell
  latitude :: "real option"
  longitude :: "real option"
  tonnage_million_tonnes :: "real option"
  grade_percent :: "real option"

text \<open>\<open>df["top1_deposit_name"].isin(visible_traces)\<close> for one row.\<close>

definition is_visible :: "string list \<Rightarrow> csv_row \<Rightarrow> bool" where
  "is_visible visible_traces r =
     (case deposit_name r of Text d \<Rightarrow> d \<in> set visible_traces | _ \<Rightarrow> False)"

text \<open>
  The lambda of lines 460 and 463 on one cell: \<open>"::" in x\<close> raises \<open>TypeError\<close> when
  \<open>x\<close> is not a string.
\<close>

definition clean_cell :: "cell \<Rightarrow> py_error + cell" where
  "clean_cell c = (case c of Text x \<Rightarrow> Inr (Text (clean_text x)) | _ \<Rightarrow> Inl TypeError)"

text \<open>\<open>df[col] = df[col].apply(...)\<close>: the column is read with \<open>get\<close> and written with \<open>put\<close>.\<close>

fun apply_column ::
  "(csv_row \<Rightarrow> cell) \<Rightarrow> (cell \<Rightarrow> csv_row \<Rightarrow> csv_row) \<Rightarrow> csv_row list \<Rightarrow>
   py_error + csv_row list"
where
  "apply_column get put [] = Inr []"
| "apply_column get put (r # rs) =
     (case clean_cell (get r) of
        Inl e \<Rightarrow> Inl e
      | Inr c \<Rightarrow>
          (case apply_column get put rs of
             Inl e \<Rightarrow> Inl e
           | Inr rs' \<Rightarrow> Inr (put c r # rs')))"

text \<open>
  \<open>download_csv\<close> from line 426 on, for the frames that \<open>pd.read_json\<close> has returned and
  the names of the visible traces: the rows written to the CSV file, or \<open>None\<close> for
  \<open>PreventUpdate\<close>, which the function raises when no row is left and when any exception
  is caught (the \<open>except\<close> of line 473).
\<close>

definition download_csv :: "csv_row list list \<Rightarrow> string list \<Rightarrow> csv_row list option" where
  "download_csv aggregated_df visible_traces =
     (let df = filter (is_visible visible_traces) (concat aggregated_df) in
      case apply_column mineral_site_name (\<lambda>c r. r\<lparr> mineral_site_name := c \<rparr>) df of
        Inl e \<Rightarrow> None
      | Inr df1 \<Rightarrow>
          (case apply_column mineral_site_url (\<lambda>c r. r\<lparr> mineral_site_url := c \<rparr>) df1 of
             Inl e \<Rightarrow> None
           | Inr df2 \<Rightarrow> if df2 = [] then None else Some df2))"

section \<open>The formats in the words of the specification\<close>

text \<open>
  The format of a combined field in the words of the specification: the two-character
  separator \<open>"::"\<close>, and the same prefix when there is more than one member.
\<close>

definition spec_combine :: "string list \<Rightarrow> string" where
  "spec_combine names =
     (if length names > 1 then ''::'' @ join ''::'' names else join ''::'' names)"

text \<open>
  The clean-up of the export in the words of the specification: the leading two characters
  are stripped and every \<open>"::"\<close> that remains becomes \<open>", "\<close>.
\<close>

definition spec_clean_text :: "string \<Rightarrow> string" where
  "spec_clean_text x = py_replace ''::'' '', '' (drop 2 x)"


section \<open>Example inputs\<close>

text \<open>Concrete inputs on which the properties below are evaluated.\<close>

definition example_cache :: data_cache where
  "example_cache =
     \<lparr> countries = [''Q30'' \<mapsto> ''United States''],
       states_or_provinces = Map.empty,
       deposit_types = [''Q380'' \<mapsto> \<lparr> details_name = ''Porphyry copper'',
          details_group = ''Porphyry'', details_environment = ''Magmatic'' \<rparr>] \<rparr>"

definition example_site ::
  "string \<Rightarrow> json_number option \<Rightarrow> json_number option \<Rightarrow> mineral_site" where
  "example_site n g t =
     \<lparr> site_id = n, site_name = n, site_type = ''Mine'', site_rank = ''A'',
       site_location = Some \<lparr> loc_country = Some [''Q30''], loc_state_or_province = None,
          loc_lat = Some 40, loc_lon = None \<rparr>,
       site_deposit_types =
         [\<lparr> dt_id = ''Q380'', dt_confidence = 1 / 2, dt_source = ''expert'' \<rparr>],
       site_grade_tonnage = [\<lparr> gt_commodity = ''Q538'', gt_total_grade = g,
          gt_total_tonnage = t, gt_total_contained_metal = Some (Number 1) \<rparr>] \<rparr>"

definition example_raw :: "mineral_site list" where
  "example_raw =
     [example_site ''a'' (Some (Number 2)) (Some (Number 0)),
      example_site ''b'' (Some (Number 2)) (Some (Number 10))]"

definition example_deposit :: "string \<Rightarrow> string \<Rightarrow> real \<Rightarrow> real \<Rightarrow> deposit" where
  "example_deposit n d g t =
     \<lparr> total_grade = g, total_tonnage = t, ms_name = n, ms = ''/derived/'' @ n,
       commodity = ''Q538'', top1_deposit_name = d, lat = None, lon = None,
       total_contained_metal = g * t \<rparr>"

text \<open>Three records of one deposit type; the distance of 0 and 2 equals the threshold 10.\<close>

definition example_df :: dataframe where
  "example_df =
     [(0, example_deposit ''A'' ''Porphyry'' 2 10),
      (1, example_deposit ''B'' ''Porphyry'' 1 30),
      (2, example_deposit ''C'' ''Porphyry'' 3 5)]"

definition example_distances :: distances where
  "example_distances = [((0, 1), Some 5), ((0, 2), Some 10)]"

text \<open>
  Two records of one deposit type, the second without an entry in the cache (a site
  without coordinates); the cache holds the distance of record 0 to a record of another
  deposit type.
\<close>

definition isolated_df :: dataframe where
  "isolated_df =
     [(0, example_deposit ''A'' ''Porphyry'' 2 10),
      (1, example_deposit ''B'' ''Porphyry'' 1 30)]"

definition isolated_distances :: distances where
  "isolated_distances = [((0, 2), Some 3)]"

text \<open>
  Two deposit types; the two records of the first have tonnage 0 and are 5 apart.
\<close>

definition zero_df :: dataframe where
  "zero_df =
     [(0, example_deposit ''A'' ''Porphyry'' 2 0),
      (1, example_deposit ''B'' ''Porphyry'' 1 0),
      (2, example_deposit ''C'' ''Skarn'' 3 5),
      (3, example_deposit ''D'' ''Skarn'' 3 5)]"

definition zero_distances :: distances where
  "zero_distances = [((0, 1), Some 5), ((2, 3), Some 50)]"

definition example_commodities :: "string \<rightharpoonup> string" where
  "example_commodities = [''Q538'' \<mapsto> ''Copper'']"

text \<open>
  Three records of one deposit type; the distance of 3 and 1 is stored under the key
  \<open>(3, 1)\<close> only.
\<close>

definition ordered_df :: dataframe where
  "ordered_df =
     [(1, example_deposit ''A'' ''Porphyry'' 2 10),
      (2, example_deposit ''B'' ''Porphyry'' 1 30),
      (3, example_deposit ''C'' ''Porphyry'' 3 5)]"

definition ordered_distances :: distances where
  "ordered_distances = [((1, 2), Some 1), ((3, 1), Some 2)]"

text \<open>
  Two records of one deposit type and a record without grade and tonnage, of the deposit
  type \<open>"Unknown"\<close>.
\<close>

definition unknown_df :: dataframe where
  "unknown_df =
     [(0, example_deposit ''A'' ''Porphyry'' 2 10),
      (1, example_deposit ''B'' ''Porphyry'' 1 30),
      (2, example_deposit ''U'' ''Unknown'' 0 0)]"

definition unknown_distances :: distances where
  "unknown_distances = [((0, 1), Some 5), ((1, 2), Some 7)]"

text \<open>
  The aggregated row of the records A and B as it is read back, and a row whose name is
  all digits and has come back as a number.
\<close>

definition example_read_back :: csv_row where
  "example_read_back =
     \<lparr> mineral_site_url = Text '':: /derived/A:: /derived/B'',
       mineral_site_name = Text '':: A:: B'', csv_commodity = Text ''Q538'',
       deposit_name = Text ''Porphyry'', latitude = None, longitude = None,
       tonnage_million_tonnes = Some 40, grade_percent = Some (5 / 4) \<rparr>"

definition digits_read_back :: csv_row where
  "digits_read_back =
     \<lparr> mineral_site_url = Text ''/derived/site7'', mineral_site_name = Num 1234,
       csv_commodity = Text ''Q538'', deposit_name = Text ''Porphyry'', latitude = None,
       longitude = None, tonnage_million_tonnes = Some 10, grade_percent = Some 2 \<rparr>"


section \<open>Properties of clean\_and\_fix\<close>

lemma clean_site_unknown:
  "clean_site cache data = Inr (Some c) \<Longrightarrow>
   \<not> py_truthy (combined_data.total_tonnage c) \<or> \<not> py_truthy (combined_data.total_grade c) \<Longrightarrow>
   combined_data.top1_deposit_name c = ''Unknown''"
  by (auto simp: clean_site_def Let_def split: list.splits option.splits sum.splits prod.splits)

lemma clean_and_fix_members:
  "clean_and_fix cache raw_data = Inr results \<Longrightarrow> c \<in> set results \<Longrightarrow>
   \<exists>data \<in> set raw_data. clean_site cache data = Inr (Some c)"
proof (induction raw_data arbitrary: results)
  case Nil
  then show ?case by simp
next
  case (Cons data raw_data)
  then show ?case
    by (auto split: sum.splits option.splits)
qed

lemma py_truthy_iff:
  "py_truthy v \<longleftrightarrow> (\<exists>x. v = Some (Number x) \<and> x \<noteq> 0)"
  by (auto simp: py_truthy_def split: option.splits json_number.splits)

lemma not_py_truthy_iff:
  "\<not> py_truthy v \<longleftrightarrow> v = None \<or> v = Some Null \<or> v = Some (Number 0)"
  by (auto simp: py_truthy_def split: option.splits json_number.splits)

text \<open>
  C10. Every record that \<open>clean_and_fix\<close> returns whose \<open>total_tonnage\<close> or
  \<open>total_grade\<close> is absent, \<open>None\<close> or zero has the deposit name \<open>"Unknown"\<close>; so a
  record with another deposit name has a total tonnage and a total grade that are present
  and not zero.
\<close>

theorem missing_grade_or_tonnage_is_unknown:
  assumes "clean_and_fix cache raw_data = Inr results" and "c \<in> set results"
  shows "(combined_data.total_tonnage c = None \<or> combined_data.total_tonnage c = Some Null \<or>
          combined_data.total_tonnage c = Some (Number 0) \<or>
          combined_data.total_grade c = None \<or> combined_data.total_grade c = Some Null \<or>
          combined_data.total_grade c = Some (Number 0)
            \<longrightarrow> combined_data.top1_deposit_name c = ''Unknown'') \<and>
         (combined_data.top1_deposit_name c \<noteq> ''Unknown''
            \<longrightarrow> (\<exists>t g. combined_data.total_tonnage c = Some (Number t) \<and> t \<noteq> 0 \<and>
                       combined_data.total_grade c = Some (Number g) \<and> g \<noteq> 0))"
proof -
  from assms obtain data where "clean_site cache data = Inr (Some c)"
    using clean_and_fix_members by blast
  then have u: "\<not> py_truthy (combined_data.total_tonnage c) \<or>
      \<not> py_truthy (combined_data.total_grade c) \<Longrightarrow>
      combined_data.top1_deposit_name c = ''Unknown''"
    by (rule clean_site_unknown)
  show ?thesis
  proof (intro conjI impI)
    assume "combined_data.total_tonnage c = None \<or> combined_data.total_tonnage c = Some Null \<or>
          combined_data.total_tonnage c = Some (Number 0) \<or>
          combined_data.total_grade c = None \<or> combined_data.total_grade c = Some Null \<or>
          combined_data.total_grade c = Some (Number 0)"
    then have "\<not> py_truthy (combined_data.total_tonnage c) \<or>
      \<not> py_truthy (combined_data.total_grade c)"
      unfolding not_py_truthy_iff by blast
    then show "combined_data.top1_deposit_name c = ''Unknown''" by (rule u)
  next
    assume "combined_data.top1_deposit_name c \<noteq> ''Unknown''"
    with u have "py_truthy (combined_data.total_tonnage c)"
      and "py_truthy (combined_data.total_grade c)"
      by blast+
    then show "\<exists>t g. combined_data.total_tonnage c = Some (Number t) \<and> t \<noteq> 0 \<and>
                       combined_data.total_grade c = Some (Number g) \<and> g \<noteq> 0"
      unfolding py_truthy_iff by blast
  qed
qed

theorem missing_grade_or_tonnage_is_unknown_witness:
  "\<exists>a b. clean_and_fix example_cache example_raw = Inr [a, b] \<and>
     combined_data.total_tonnage a = Some (Number 0) \<and>
     combined_data.top1_deposit_name a = ''Unknown'' \<and>
     combined_data.top1_deposit_name b = ''Porphyry copper'' \<and>
     (\<exists>t g. combined_data.total_tonnage b = Some (Number t) \<and> t \<noteq> 0 \<and>
            combined_data.total_grade b = Some (Number g) \<and> g \<noteq> 0)"
proof -
  obtain a b where e: "clean_and_fix example_cache example_raw = Inr [a, b]"
    and a: "combined_data.total_tonnage a = Some (Number 0)"
    and b: "combined_data.top1_deposit_name b = ''Porphyry copper''"
    by (simp add: example_raw_def example_cache_def example_site_def clean_site_def
        gt_details_def py_truthy_def first_name_def)
  from missing_grade_or_tonnage_is_unknown [OF e, of a] a
  have "combined_data.top1_deposit_name a = ''Unknown''" by simp
  moreover from missing_grade_or_tonnage_is_unknown [OF e, of b] b
  have "\<exists>t g. combined_data.total_tonnage b = Some (Number t) \<and> t \<noteq> 0 \<and>
            combined_data.total_grade b = Some (Number g) \<and> g \<noteq> 0" by simp
  ultimately show ?thesis using e a b by blast
qed

section \<open>Properties of the greedy aggregation\<close>

subsection \<open>The inner scan and the groups\<close>

lemma scan_nearby_added:
  "scan_nearby ds thr valid i js (g, P) = (g', P') \<Longrightarrow>
   \<exists>added. g' = g @ added \<and> P' = P \<union> set added \<and> distinct added \<and> set added \<inter> P = {} \<and>
     set added \<subseteq> set js \<inter> valid - {i} \<and>
     (\<forall>j \<in> set added. \<exists>d. map_of ds (i, j) = Some (Some d) \<and> d < thr)"
proof (induction js arbitrary: g P)
  case Nil
  then show ?case by simp
next
  case (Cons j js)
  show ?case
  proof (cases "i \<noteq> j \<and> j \<notin> P \<and> (\<exists>d. map_of ds (i, j) = Some (Some d) \<and> d < thr) \<and> j \<in> valid")
    case True
    then obtain d where d: "map_of ds (i, j) = Some (Some d)" "d < thr" by blast
    with True Cons.prems have "scan_nearby ds thr valid i js (g @ [j], insert j P) = (g', P')"
      by simp
    from Cons.IH [OF this] obtain added where a: "g' = (g @ [j]) @ added" "P' = insert j P \<union> set added"
      "distinct added" "set added \<inter> insert j P = {}" "set added \<subseteq> set js \<inter> valid - {i}"
      "\<forall>j \<in> set added. \<exists>d. map_of ds (i, j) = Some (Some d) \<and> d < thr" by blast
    show ?thesis
      apply (rule exI [of _ "j # added"])
      using a True d by auto
  next
    case False
    with Cons.prems have "scan_nearby ds thr valid i js (g, P) = (g', P')"
      by (auto split: option.splits if_splits)
    from Cons.IH [OF this] show ?thesis by auto
  qed
qed

lemma groups_loop_seed:
  "set rest \<subseteq> valid \<Longrightarrow> G \<in> set (groups_loop ds thr valid sri rest P) \<Longrightarrow>
   \<exists>i added. G = i # added \<and> i \<in> set rest \<and> set added \<subseteq> set sri \<inter> valid - {i} \<and>
     (\<forall>j \<in> set added. \<exists>d. map_of ds (i, j) = Some (Some d) \<and> d < thr)"
proof (induction rest arbitrary: P)
  case Nil
  then show ?case by simp
next
  case (Cons i rest)
  show ?case
  proof (cases "i \<in> P")
    case True
    with Cons.prems have "G \<in> set (groups_loop ds thr valid sri rest P)" by simp
    with Cons.IH Cons.prems(1) show ?thesis by fastforce
  next
    case False
    obtain g0 P' where s: "scan_nearby ds thr valid i sri ([i], insert i P) = (g0, P')"
      by (cases "scan_nearby ds thr valid i sri ([i], insert i P)")
    from scan_nearby_added [OF s] obtain added where a: "g0 = [i] @ added"
      "set added \<subseteq> set sri \<inter> valid - {i}"
      "\<forall>j \<in> set added. \<exists>d. map_of ds (i, j) = Some (Some d) \<and> d < thr" by blast
    from Cons.prems(1) have iv: "i \<in> valid" by simp
    with a have f: "filter (\<lambda>idx. idx \<in> valid) g0 = i # added"
      by (auto simp: filter_id_conv)
    from Cons.prems(2) False s f
    have "G = i # added \<or> G \<in> set (groups_loop ds thr valid sri rest P')"
      by (simp add: Let_def)
    then show ?thesis
    proof
      assume "G = i # added"
      with a show ?thesis by auto
    next
      assume "G \<in> set (groups_loop ds thr valid sri rest P')"
      with Cons.IH Cons.prems(1) show ?thesis by fastforce
    qed
  qed
qed

lemma aggregate_loop_Inr:
  "aggregate_loop df ds thr sri rest P acc = Inr out \<Longrightarrow>
   \<exists>new. out = acc @ new \<and> map fst new = groups_loop ds thr (valid_indices df) sri rest P \<and>
     (\<forall>x \<in> set new. aggregate_group df (fst x) = Inr (snd x))"
proof (induction rest arbitrary: P acc)
  case Nil
  then show ?case by simp
next
  case (Cons i rest)
  show ?case
  proof (cases "i \<in> P")
    case True
    with Cons show ?thesis by simp
  next
    case False
    obtain g0 P' where s: "scan_nearby ds thr (valid_indices df) i sri ([i], insert i P) = (g0, P')"
      by (cases "scan_nearby ds thr (valid_indices df) i sri ([i], insert i P)")
    show ?thesis
    proof (cases "filter (\<lambda>idx. idx \<in> valid_indices df) g0 = []")
      case True
      with Cons False s show ?thesis by (simp add: Let_def)
    next
      case ne: False
      let ?g = "filter (\<lambda>idx. idx \<in> valid_indices df) g0"
      from Cons.prems False s ne obtain row where r: "aggregate_group df ?g = Inr row"
        and l: "aggregate_loop df ds thr sri rest P' (acc @ [(?g, row)]) = Inr out"
        by (auto simp: Let_def split: sum.splits)
      from Cons.IH [OF l] obtain new where n: "out = (acc @ [(?g, row)]) @ new"
        "map fst new = groups_loop ds thr (valid_indices df) sri rest P'"
        "\<forall>x \<in> set new. aggregate_group df (fst x) = Inr (snd x)" by blast
      show ?thesis
        apply (rule exI [of _ "(?g, row) # new"])
        using n r False s ne by (simp add: Let_def)
    qed
  qed
qed

lemma aggregate_loop_Inl:
  "aggregate_loop df ds thr sri rest P acc = Inl e \<Longrightarrow>
   \<exists>G \<in> set (groups_loop ds thr (valid_indices df) sri rest P). aggregate_group df G = Inl e"
proof (induction rest arbitrary: P acc)
  case Nil
  then show ?case by simp
next
  case (Cons i rest)
  show ?case
  proof (cases "i \<in> P")
    case True
    with Cons show ?thesis by simp
  next
    case False
    obtain g0 P' where s: "scan_nearby ds thr (valid_indices df) i sri ([i], insert i P) = (g0, P')"
      by (cases "scan_nearby ds thr (valid_indices df) i sri ([i], insert i P)")
    show ?thesis
    proof (cases "filter (\<lambda>idx. idx \<in> valid_indices df) g0 = []")
      case True
      with Cons False s show ?thesis by (simp add: Let_def)
    next
      case ne: False
      let ?g = "filter (\<lambda>idx. idx \<in> valid_indices df) g0"
      show ?thesis
      proof (cases "aggregate_group df ?g")
        case (Inl e')
        with Cons.prems False s ne have "e' = e" by (simp add: Let_def)
        with Inl False s ne show ?thesis by (simp add: Let_def)
      next
        case (Inr row)
        with Cons.prems False s ne
        have "aggregate_loop df ds thr sri rest P' (acc @ [(?g, row)]) = Inl e"
          by (simp add: Let_def)
        from Cons.IH [OF this] False s ne show ?thesis by (simp add: Let_def)
      qed
    qed
  qed
qed

lemmas example_defs = example_df_def example_distances_def example_deposit_def
lemmas agg_defs = aggregation_with_members_def sorted_by_distance_def sorted_row_indices_def
  valid_indices_def aggregate_group_def df_loc_def np_average_def combine_def distance_key_def


subsection \<open>The rows and the groups of an aggregation\<close>

lemma aggregation_groups:
  assumes "aggregation_with_members df ds thr = Inr out"
  shows "cluster_groups df ds thr = Inr (map fst out)"
    and "\<forall>x \<in> set out. aggregate_group df (fst x) = Inr (snd x)"
proof -
  from assms obtain sd where sd: "sorted_by_distance ds = Inr sd"
    and l: "aggregate_loop df ds thr (sorted_row_indices (valid_indices df) sd)
            (sorted_row_indices (valid_indices df) sd) {} [] = Inr out"
    by (auto simp: aggregation_with_members_def split: sum.splits)
  from aggregate_loop_Inr [OF l] sd
  show "cluster_groups df ds thr = Inr (map fst out)"
    and "\<forall>x \<in> set out. aggregate_group df (fst x) = Inr (snd x)"
    by (auto simp: cluster_groups_def)
qed

lemma sorted_row_indices_valid: "set (sorted_row_indices valid sd) \<subseteq> valid"
  by (auto simp: sorted_row_indices_def)

lemma cluster_groups_seed:
  assumes "cluster_groups df ds thr = Inr groups" and "G \<in> set groups"
  shows "\<exists>i added. G = i # added \<and> i \<in> valid_indices df \<and> set added \<subseteq> valid_indices df - {i} \<and>
     (\<forall>j \<in> set added. \<exists>d. map_of ds (i, j) = Some (Some d) \<and> d < thr)"
proof -
  from assms obtain sd where sd: "sorted_by_distance ds = Inr sd"
    and g: "G \<in> set (groups_loop ds thr (valid_indices df) (sorted_row_indices (valid_indices df) sd)
            (sorted_row_indices (valid_indices df) sd) {})"
    by (auto simp: cluster_groups_def split: sum.splits)
  from groups_loop_seed [OF sorted_row_indices_valid g] sorted_row_indices_valid [of "valid_indices df" sd]
  show ?thesis by blast
qed

text \<open>
  C7. A record \<open>j\<close> is in the cluster of the seed \<open>i\<close> only if the cache holds a distance
  for \<open>(i, j)\<close> that is not \<open>None\<close> and is strictly below the threshold: an absent or
  \<open>None\<close> entry and a distance equal to the threshold do not merge.
\<close>

theorem merge_only_below_threshold:
  assumes "aggregation_with_members df ds thr = Inr out"
    and "(seed # members, row) \<in> set out" and "j \<in> set members"
  shows "\<exists>d. map_of ds (seed, j) = Some (Some d) \<and> d < thr"
proof -
  from aggregation_groups(1) [OF assms(1)] assms(2)
  have "cluster_groups df ds thr = Inr (map fst out)" and "seed # members \<in> set (map fst out)"
    by force+
  from cluster_groups_seed [OF this] assms(3) show ?thesis by auto
qed


theorem merge_only_below_threshold_witness:
  "\<exists>r0 r2. aggregation_with_members example_df example_distances 10 = Inr [([0, 1], r0), ([2], r2)] \<and>
     (\<exists>d. map_of example_distances (0, 1) = Some (Some d) \<and> d < 10) \<and>
     map_of example_distances (0, 2) = Some (Some 10)"
proof -
  obtain r0 r2 where e: "aggregation_with_members example_df example_distances 10 = Inr [([0, 1], r0), ([2], r2)]"
    by (simp add: example_defs agg_defs)
  from merge_only_below_threshold [OF e, of 0 "[1]" r0 1]
  have "\<exists>d. map_of example_distances (0, 1) = Some (Some d) \<and> d < 10" by simp
  moreover have "map_of example_distances (0, 2) = Some (Some 10)"
    by (simp add: example_distances_def)
  ultimately show ?thesis using e by blast
qed

subsection \<open>The clusters partition the records that occur in the cache\<close>

lemma groups_loop_partition:
  "set rest \<subseteq> valid \<Longrightarrow>
   distinct (concat (groups_loop ds thr valid sri rest P)) \<and>
   set (concat (groups_loop ds thr valid sri rest P)) \<inter> P = {} \<and>
   set (concat (groups_loop ds thr valid sri rest P)) \<subseteq> set rest \<union> set sri \<and>
   set rest \<subseteq> P \<union> set (concat (groups_loop ds thr valid sri rest P))"
proof (induction rest arbitrary: P)
  case Nil
  then show ?case by simp
next
  case (Cons i rest)
  from Cons.prems have rv: "set rest \<subseteq> valid" and iv: "i \<in> valid" by auto
  show ?case
  proof (cases "i \<in> P")
    case True
    with Cons.IH [OF rv, of P] show ?thesis by auto
  next
    case False
    obtain g0 P' where s: "scan_nearby ds thr valid i sri ([i], insert i P) = (g0, P')"
      by (cases "scan_nearby ds thr valid i sri ([i], insert i P)")
    from scan_nearby_added [OF s] obtain added where a: "g0 = [i] @ added"
      "P' = insert i P \<union> set added" "distinct added" "set added \<inter> insert i P = {}"
      "set added \<subseteq> set sri \<inter> valid - {i}" by blast
    from iv a have f: "filter (\<lambda>idx. idx \<in> valid) g0 = i # added"
      by (auto simp: filter_id_conv)
    have g: "groups_loop ds thr valid sri (i # rest) P =
        (i # added) # groups_loop ds thr valid sri rest P'"
      using False s f by (simp add: Let_def)
    from Cons.IH [OF rv, of P'] a False show ?thesis
      unfolding g by auto
  qed
qed

lemma set_sorted_row_indices:
  "set (sorted_row_indices valid sd) = valid \<inter> cache_indices sd"
proof (induction sd)
  case Nil
  then show ?case by (simp add: sorted_row_indices_def cache_indices_def)
next
  case (Cons kv sd)
  have "sorted_row_indices valid (kv # sd) =
      filter (\<lambda>index. index \<in> valid) [fst (fst kv), snd (fst kv)] @ sorted_row_indices valid sd"
    by (simp add: sorted_row_indices_def split: prod.splits)
  moreover have "cache_indices (kv # sd) = {fst (fst kv), snd (fst kv)} \<union> cache_indices sd"
    by (auto simp: cache_indices_def)
  ultimately show ?case using Cons.IH by auto
qed

lemma sorted_by_distance_set: "sorted_by_distance ds = Inr sd \<Longrightarrow> set sd = set ds"
  by (auto simp: sorted_by_distance_def split: if_splits)

lemma cluster_groups_partition:
  assumes "cluster_groups df ds thr = Inr groups"
  shows "distinct (concat groups)"
    and "set (concat groups) = valid_indices df \<inter> cache_indices ds"
proof -
  from assms obtain sd where sd: "sorted_by_distance ds = Inr sd"
    and g: "groups = groups_loop ds thr (valid_indices df) (sorted_row_indices (valid_indices df) sd)
            (sorted_row_indices (valid_indices df) sd) {}"
    by (auto simp: cluster_groups_def split: sum.splits)
  let ?sri = "sorted_row_indices (valid_indices df) sd"
  have "distinct (concat (groups_loop ds thr (valid_indices df) ?sri ?sri {})) \<and>
   set (concat (groups_loop ds thr (valid_indices df) ?sri ?sri {})) \<inter> {} = {} \<and>
   set (concat (groups_loop ds thr (valid_indices df) ?sri ?sri {})) \<subseteq> set ?sri \<union> set ?sri \<and>
   set ?sri \<subseteq> {} \<union> set (concat (groups_loop ds thr (valid_indices df) ?sri ?sri {}))"
    by (rule groups_loop_partition) (rule sorted_row_indices_valid)
  then have "distinct (concat groups)"
    and "set (concat groups) = set (sorted_row_indices (valid_indices df) sd)"
    unfolding g by auto
  then show "distinct (concat groups)"
    and "set (concat groups) = valid_indices df \<inter> cache_indices ds"
    using sorted_by_distance_set [OF sd]
    by (simp_all add: set_sorted_row_indices cache_indices_def)
qed


text \<open>
  C1. The claim is that the clusters of a group hold every record of the group once, a
  record without a known distance as a singleton. The clusters hold once each record
  that occurs in a key of the cache (\<open>cluster_groups_partition\<close>); on the group below,
  record 1 occurs in no key and is in no cluster.
\<close>

theorem isolated_record_is_dropped:
  "1 \<in> valid_indices isolated_df \<and>
   (\<exists>row. aggregation_with_members isolated_df isolated_distances 5 = Inr [([0], row)] \<and>
      ms_name row = ''A'')"
  by (simp add: isolated_df_def isolated_distances_def example_deposit_def agg_defs)

subsection \<open>Errors of the aggregation\<close>

lemma df_loc_list_valid:
  "set G \<subseteq> valid_indices df \<Longrightarrow> \<exists>rows. df_loc_list df G = Inr rows"
proof (induction G)
  case Nil
  then show ?case by simp
next
  case (Cons idx G)
  then have "idx \<in> fst ` set df" by (simp add: valid_indices_def)
  then obtain r where "map_of df idx = Some r"
    by (metis map_of_eq_None_iff not_Some_eq)
  with Cons show ?case by (auto simp: df_loc_def)
qed

lemma df_loc_list_length: "df_loc_list df G = Inr rows \<Longrightarrow> length rows = length G"
  by (induction G arbitrary: rows) (auto split: sum.splits)

lemma aggregate_group_error:
  assumes "set G \<subseteq> valid_indices df" and "G \<noteq> []" and "aggregate_group df G = Inl e"
  shows "e = ZeroDivisionError"
proof -
  from df_loc_list_valid [OF assms(1)] obtain rows where r: "df_loc_list df G = Inr rows" ..
  with df_loc_list_length [OF r] assms(2) obtain r0 rs where "rows = r0 # rs"
    by (cases rows) auto
  with r assms(3) show ?thesis
    by (auto simp: aggregate_group_def np_average_def split: if_splits)
qed

lemma aggregate_group_zero:
  assumes "df_loc_list df G = Inr rows" and "G \<noteq> []"
    and "sum_list (map total_tonnage rows) = 0"
  shows "aggregate_group df G = Inl ZeroDivisionError"
proof -
  from df_loc_list_length [OF assms(1)] assms(2) obtain r0 rs where "rows = r0 # rs"
    by (cases rows) auto
  with assms show ?thesis
    by (simp add: aggregate_group_def np_average_def)
qed

lemma zero_tonnage_aggregation:
  assumes cg: "cluster_groups df ds thr = Inr groups" and G: "G \<in> set groups"
    and rows: "df_loc_list df G = Inr rows" and z: "sum_list (map total_tonnage rows) = 0"
  shows "aggregation_with_members df ds thr = Inl ZeroDivisionError"
proof -
  from cluster_groups_seed [OF cg G] have ne: "G \<noteq> []" by auto
  from aggregate_group_zero [OF rows ne z] have ag: "aggregate_group df G = Inl ZeroDivisionError" .
  show ?thesis
  proof (cases "aggregation_with_members df ds thr")
    case (Inr out)
    from aggregation_groups [OF Inr] cg G
    have "\<exists>x \<in> set out. fst x = G" and "\<forall>x \<in> set out. aggregate_group df (fst x) = Inr (snd x)"
      by auto
    with ag show ?thesis by auto
  next
    case (Inl e)
    from cg obtain sd where sd: "sorted_by_distance ds = Inr sd"
      and g: "groups = groups_loop ds thr (valid_indices df)
            (sorted_row_indices (valid_indices df) sd)
            (sorted_row_indices (valid_indices df) sd) {}"
      by (auto simp: cluster_groups_def split: sum.splits)
    from Inl sd have "aggregate_loop df ds thr (sorted_row_indices (valid_indices df) sd)
            (sorted_row_indices (valid_indices df) sd) {} [] = Inl e"
      by (simp add: aggregation_with_members_def)
    from aggregate_loop_Inl [OF this] g obtain G' where G': "G' \<in> set groups"
      and e: "aggregate_group df G' = Inl e" by auto
    from cluster_groups_seed [OF cg G'] have "set G' \<subseteq> valid_indices df" and "G' \<noteq> []"
      by auto
    from aggregate_group_error [OF this e] Inl show ?thesis by simp
  qed
qed

lemma greedy_Inl:
  "aggregation_with_members df ds thr = Inl e \<Longrightarrow>
   greedy_weighted_avg_aggregation df ds thr = Inl e"
  by (simp add: greedy_weighted_avg_aggregation_def)

lemma deposit_traces_error:
  assumes "proximity_value \<noteq> 0" and "d_type \<in> set labels" and "d_type \<noteq> ''Unknown''"
    and "greedy_weighted_avg_aggregation (df_filtered df d_type) ds proximity_value = Inl e"
  shows "\<exists>e'. deposit_traces cache df ds proximity_value labels acc = Inl e'"
  using assms(2)
proof (induction labels arbitrary: acc)
  case Nil
  then show ?case by simp
next
  case (Cons l labels)
  obtain frames traces where acc: "acc = (frames, traces)" by (cases acc)
  show ?case
  proof (cases "l = d_type")
    case True
    with assms acc show ?thesis by simp
  next
    case False
    with Cons.prems have "d_type \<in> set labels" by simp
    from Cons.IH [OF this] acc assms(1) show ?thesis
      by (auto split: sum.splits)
  qed
qed

lemma unknown_last_set: "set (unknown_last labels) = set labels"
proof (cases "''Unknown'' \<in> set labels")
  case True
  define u where "u = ''Unknown''"
  have a: "set (unknown_last labels) = set (remove1 u labels) \<union> {u}"
    using True by (simp add: unknown_last_def u_def)
  have b: "set (remove1 u labels) \<subseteq> set labels" by (rule set_remove1_subset)
  have c: "\<forall>x. x \<in> set labels \<and> x \<noteq> u \<longrightarrow> x \<in> set (remove1 u labels)"
    by simp
  from True have d: "u \<in> set labels" by (simp add: u_def)
  from a b c d show ?thesis by blast
next
  case False
  then show ?thesis by (simp add: unknown_last_def)
qed

text \<open>
  C3. The claim is that a cluster whose tonnages sum to zero does not abort the request and
  gets the unweighted mean of its grades. There is no such fallback: when the grouping
  of a deposit type forms a cluster whose tonnages sum to zero, the aggregation of that
  deposit type raises \<open>ZeroDivisionError\<close> and \<open>get_gt_model\<close> returns no dataset.
\<close>

theorem zero_tonnage_cluster_aborts:
  assumes "proximity_value \<noteq> 0" and "d_type \<in> set ranked" and "d_type \<noteq> ''Unknown''"
    and "cluster_groups (df_filtered df d_type) ds proximity_value = Inr groups"
    and "G \<in> set groups"
    and "df_loc_list (df_filtered df d_type) G = Inr rows"
    and "sum_list (map total_tonnage rows) = 0"
  shows "greedy_weighted_avg_aggregation (df_filtered df d_type) ds proximity_value =
           Inl ZeroDivisionError \<and>
         (\<exists>e. get_gt_model cache df ds ranked proximity_value = Inl e)"
proof -
  from zero_tonnage_aggregation [OF assms(4-7)]
  have g: "greedy_weighted_avg_aggregation (df_filtered df d_type) ds proximity_value =
           Inl ZeroDivisionError"
    by (rule greedy_Inl)
  from assms(2) have "d_type \<in> set (unknown_last ranked)" by (simp add: unknown_last_set)
  from deposit_traces_error [OF assms(1) this assms(3) g]
  obtain e where "deposit_traces cache df ds proximity_value (unknown_last ranked) ([], []) = Inl e"
    by blast
  then have "get_gt_model cache df ds ranked proximity_value = Inl e"
    by (simp add: get_gt_model_def)
  with g show ?thesis by blast
qed


lemmas zero_defs = zero_df_def zero_distances_def example_deposit_def example_commodities_def
lemmas model_defs = get_gt_model_def unknown_last_def df_filtered_def
  greedy_weighted_avg_aggregation_def make_trace_def plot_columns_def plotted_def

theorem zero_tonnage_cluster_counterexample:
  "get_gt_model example_commodities zero_df zero_distances [''Porphyry'', ''Skarn''] 10 =
     Inl ZeroDivisionError"
  by (simp add: zero_defs model_defs agg_defs)

theorem zero_tonnage_cluster_aborts_witness:
  "(10::real) \<noteq> 0 \<and> ''Porphyry'' \<in> set [''Porphyry'', ''Skarn''] \<and> ''Porphyry'' \<noteq> ''Unknown'' \<and>
   cluster_groups (df_filtered zero_df ''Porphyry'') zero_distances 10 = Inr [[0, 1]] \<and>
   (\<exists>rows. df_loc_list (df_filtered zero_df ''Porphyry'') [0, 1] = Inr rows \<and>
      sum_list (map total_tonnage rows) = 0) \<and>
   greedy_weighted_avg_aggregation (df_filtered zero_df ''Porphyry'') zero_distances 10 =
     Inl ZeroDivisionError \<and>
   (\<exists>e. get_gt_model example_commodities zero_df zero_distances [''Porphyry'', ''Skarn''] 10 = Inl e)"
proof -
  have h1: "(10::real) \<noteq> 0" and h2: "''Porphyry'' \<in> set [''Porphyry'', ''Skarn'']"
    and h3: "''Porphyry'' \<noteq> ''Unknown''" by simp_all
  have h4: "cluster_groups (df_filtered zero_df ''Porphyry'') zero_distances 10 = Inr [[0, 1]]"
    by (simp add: zero_defs df_filtered_def cluster_groups_def sorted_by_distance_def
        sorted_row_indices_def valid_indices_def distance_key_def)
  have h5: "[0, 1] \<in> set [[0, 1::nat]]" by simp
  obtain rows where h6: "df_loc_list (df_filtered zero_df ''Porphyry'') [0, 1] = Inr rows"
    and h7: "sum_list (map total_tonnage rows) = 0"
    by (simp add: zero_defs df_filtered_def df_loc_def)
  from zero_tonnage_cluster_aborts [OF h1 h2 h3 h4 h5 h6 h7, of example_commodities]
  show ?thesis using h4 h6 h7 by auto
qed

subsection \<open>The combined fields\<close>

lemma py_count_no_colon:
  "CHR '':'' \<notin> set n \<Longrightarrow> py_count ''::'' (n @ t) = py_count ''::'' t"
  by (induction n) auto

lemma py_count_separator:
  "py_count ''::'' ('':: '' @ t) = Suc (py_count ''::'' t)"
  using py_count_no_colon [of "'' ''" t] by simp

lemma py_count_join:
  "\<forall>n \<in> set (x # xs). CHR '':'' \<notin> set n \<Longrightarrow>
   py_count ''::'' (join '':: '' (x # xs)) = length xs"
proof (induction xs arbitrary: x)
  case Nil
  then show ?case using py_count_no_colon [of x "[]"] by simp
next
  case (Cons y ys)
  then have "py_count ''::'' (join '':: '' (y # ys)) = length ys" by simp
  moreover have "py_count ''::'' (join '':: '' (x # y # ys)) =
      py_count ''::'' ('':: '' @ join '':: '' (y # ys))"
    using Cons.prems py_count_no_colon [of x] by simp
  ultimately show ?case by (simp only: py_count_separator length_Cons)
qed

lemma py_count_combine:
  assumes "2 \<le> length names" and "\<forall>n \<in> set names. CHR '':'' \<notin> set n"
  shows "py_count ''::'' (combine names) = length names"
proof -
  from assms(1) obtain x xs where n: "names = x # xs" by (cases names) auto
  with assms(2) have j: "py_count ''::'' (join '':: '' names) = length xs"
    using py_count_join [of x xs] by simp
  from assms(1) have "combine names = '':: '' @ join '':: '' names"
    by (simp add: combine_def)
  then have "py_count ''::'' (combine names) = Suc (py_count ''::'' (join '':: '' names))"
    by (simp only: py_count_separator)
  with j n show ?thesis by simp
qed

lemma separator_join:
  "sep @ join sep (x # xs) = concat (map (\<lambda>n. sep @ n) (x # xs))"
  by (induction xs arbitrary: x) simp_all

lemma combine_concat:
  assumes "2 \<le> length names"
  shows "combine names = concat (map (\<lambda>n. '':: '' @ n) names)"
proof -
  from assms obtain x xs where "names = x # xs" by (cases names) auto
  with assms separator_join [of "'':: ''" x xs] show ?thesis
    by (auto simp add: combine_def)
qed

lemma combine_single: "combine [n] = n"
  by (simp add: combine_def)

lemma aggregate_group_fields:
  assumes "aggregate_group df G = Inr row"
  shows "\<exists>rows. df_loc_list df G = Inr rows \<and> rows \<noteq> [] \<and>
           ms_name row = combine (map ms_name rows) \<and> ms row = combine (map ms rows)"
  using assms
  by (auto simp: aggregate_group_def split: sum.splits list.splits)

text \<open>
  C4. The claim is that the names and the ids of the members are joined with the
  two-character separator \<open>"::"\<close>. The separator and the prefix are the three characters
  \<open>":: "\<close> (colon, colon, space): for the members of a cluster in build order, the
  field of a single member is its bare name, the field of two or more members is each
  name preceded by \<open>":: "\<close>, and when no name holds a colon the field of \<open>n \<ge> 2\<close>
  members holds \<open>"::"\<close> exactly \<open>n\<close> times: the prefix and \<open>n - 1\<close> separators.
\<close>

theorem combined_fields_format:
  assumes "aggregation_with_members df ds thr = Inr out" and "(G, row) \<in> set out"
  shows "\<exists>rows. df_loc_list df G = Inr rows \<and> length rows = length G \<and>
           (\<forall>r. rows = [r] \<longrightarrow> ms_name row = ms_name r \<and> ms row = ms r) \<and>
           (2 \<le> length rows \<longrightarrow>
              ms_name row = concat (map (\<lambda>r. '':: '' @ ms_name r) rows) \<and>
              ms row = concat (map (\<lambda>r. '':: '' @ ms r) rows)) \<and>
           (2 \<le> length rows \<and> (\<forall>r \<in> set rows. CHR '':'' \<notin> set (ms_name r)) \<longrightarrow>
              py_count ''::'' (ms_name row) = length rows) \<and>
           (2 \<le> length rows \<and> (\<forall>r \<in> set rows. CHR '':'' \<notin> set (ms r)) \<longrightarrow>
              py_count ''::'' (ms row) = length rows)"
proof -
  from aggregation_groups(2) [OF assms(1)] assms(2)
  have "aggregate_group df G = Inr row" by force
  from aggregate_group_fields [OF this] obtain rows where r: "df_loc_list df G = Inr rows"
    and n: "ms_name row = combine (map ms_name rows)" and m: "ms row = combine (map ms rows)"
    by blast
  have "length rows = length G" using r by (rule df_loc_list_length)
  moreover have "\<forall>r. rows = [r] \<longrightarrow> ms_name row = ms_name r \<and> ms row = ms r"
    using n m by (simp add: combine_single)
  moreover have "2 \<le> length rows \<longrightarrow>
              ms_name row = concat (map (\<lambda>r. '':: '' @ ms_name r) rows) \<and>
              ms row = concat (map (\<lambda>r. '':: '' @ ms r) rows)"
    using n m combine_concat [of "map ms_name rows"] combine_concat [of "map ms rows"]
    by (simp add: comp_def)
  moreover have "2 \<le> length rows \<and> (\<forall>r \<in> set rows. CHR '':'' \<notin> set (ms_name r)) \<longrightarrow>
              py_count ''::'' (ms_name row) = length rows"
    using n py_count_combine [of "map ms_name rows"] by simp
  moreover have "2 \<le> length rows \<and> (\<forall>r \<in> set rows. CHR '':'' \<notin> set (ms r)) \<longrightarrow>
              py_count ''::'' (ms row) = length rows"
    using m py_count_combine [of "map ms rows"] by simp
  ultimately show ?thesis using r by blast
qed

theorem combined_fields_counterexample:
  "\<exists>r0 r2. aggregation_with_members example_df example_distances 10 =
       Inr [([0, 1], r0), ([2], r2)] \<and>
     ms_name r0 = '':: A:: B'' \<and> spec_combine [''A'', ''B''] = ''::A::B'' \<and>
     ms_name r0 \<noteq> spec_combine [''A'', ''B'']"
  by (simp add: example_defs agg_defs spec_combine_def)

theorem combined_fields_format_witness:
  "\<exists>r0 r2. aggregation_with_members example_df example_distances 10 =
       Inr [([0, 1], r0), ([2], r2)] \<and>
     ms_name r0 = '':: A:: B'' \<and> ms r0 = '':: /derived/A:: /derived/B'' \<and>
     py_count ''::'' (ms_name r0) = 2 \<and> ms_name r2 = ''C''"
proof -
  obtain r0 r2 where e: "aggregation_with_members example_df example_distances 10 =
       Inr [([0, 1], r0), ([2], r2)]"
    by (simp add: example_defs agg_defs)
  have l0: "df_loc_list example_df [0, 1] =
      Inr [example_deposit ''A'' ''Porphyry'' 2 10, example_deposit ''B'' ''Porphyry'' 1 30]"
    and l2: "df_loc_list example_df [2] = Inr [example_deposit ''C'' ''Porphyry'' 3 5]"
    by (simp_all add: example_df_def df_loc_def)
  from combined_fields_format [OF e, of "[0, 1]" r0] l0
  have "ms_name r0 = '':: A:: B'' \<and> ms r0 = '':: /derived/A:: /derived/B'' \<and>
     py_count ''::'' (ms_name r0) = 2"
    by (simp add: example_deposit_def)
  moreover from combined_fields_format [OF e, of "[2]" r2] l2
  have "ms_name r2 = ''C''"
    by (simp add: example_deposit_def)
  ultimately show ?thesis using e by blast
qed

section \<open>Properties of get\_gt\_model\<close>

lemma make_trace_type:
  "make_trace cache d_type n f = Inr t \<Longrightarrow> trace_deposit_type t = d_type"
  by (auto simp: make_trace_def split: sum.splits)

lemma filter_remove1_same: "filter (\<lambda>d. d \<noteq> u) (remove1 u xs) = filter (\<lambda>d. d \<noteq> u) xs"
  by (induction xs) auto

lemma filter_unknown_last:
  "filter (\<lambda>d. d \<noteq> ''Unknown'') (unknown_last labels) = filter (\<lambda>d. d \<noteq> ''Unknown'') labels"
  using filter_remove1_same [of "''Unknown''" labels]
  by (simp add: unknown_last_def)

lemma unknown_last_filter:
  "unknown_last (filter (\<lambda>d. d \<noteq> ''Unknown'') labels) = filter (\<lambda>d. d \<noteq> ''Unknown'') labels"
  by (simp add: unknown_last_def)

lemma unknown_last_last:
  "''Unknown'' \<in> set labels \<Longrightarrow> last (unknown_last labels) = ''Unknown''"
  by (simp add: unknown_last_def)

lemma deposit_traces_skip:
  "proximity_value \<noteq> 0 \<Longrightarrow>
   deposit_traces cache df ds proximity_value labels acc =
   deposit_traces cache df ds proximity_value (filter (\<lambda>d. d \<noteq> ''Unknown'') labels) acc"
proof (induction labels arbitrary: acc)
  case Nil
  then show ?case by simp
next
  case (Cons l labels)
  obtain frames traces where acc: "acc = (frames, traces)" by (cases acc)
  show ?case
  proof (cases "l = ''Unknown''")
    case True
    with Cons acc show ?thesis by simp
  next
    case False
    with Cons acc show ?thesis
      by (simp split: sum.splits)
  qed
qed

lemma aggregate_group_type:
  assumes "aggregate_group (df_filtered df d_type) G = Inr row"
  shows "top1_deposit_name row = d_type"
proof -
  from assms obtain r0 rs where l: "df_loc_list (df_filtered df d_type) G = Inr (r0 # rs)"
    and t: "top1_deposit_name row = top1_deposit_name r0"
    by (auto simp: aggregate_group_def split: sum.splits list.splits)
  from l obtain idx where "df_loc (df_filtered df d_type) idx = Inr r0"
    by (cases G) (auto split: sum.splits)
  then have "map_of (df_filtered df d_type) idx = Some r0"
    by (simp add: df_loc_def split: option.splits)
  then have "(idx, r0) \<in> set (df_filtered df d_type)" by (rule map_of_SomeD)
  with t show ?thesis by (simp add: df_filtered_def)
qed

lemma greedy_rows_type:
  assumes "greedy_weighted_avg_aggregation (df_filtered df d_type) ds thr = Inr rows"
    and "row \<in> set rows"
  shows "top1_deposit_name row = d_type"
proof -
  from assms(1) obtain out where o: "aggregation_with_members (df_filtered df d_type) ds thr = Inr out"
    and r: "rows = map snd out"
    by (auto simp: greedy_weighted_avg_aggregation_def split: sum.splits)
  from r assms(2) obtain G where "(G, row) \<in> set out" by auto
  with aggregation_groups(2) [OF o] have "aggregate_group (df_filtered df d_type) G = Inr row"
    by force
  then show ?thesis by (rule aggregate_group_type)
qed

lemma deposit_traces_nonzero:
  assumes "proximity_value \<noteq> 0"
  shows "deposit_traces cache df ds proximity_value labels (frames, traces) = Inr (frames', traces') \<Longrightarrow>
   map trace_deposit_type traces' =
     map trace_deposit_type traces @ filter (\<lambda>d. d \<noteq> ''Unknown'') labels \<and>
   (\<exists>new. frames' = frames @ new \<and>
      (\<forall>f \<in> set new. \<forall>row \<in> set (frame_rows f). top1_deposit_name row \<noteq> ''Unknown''))"
proof (induction labels arbitrary: frames traces)
  case Nil
  then show ?case by simp
next
  case (Cons l labels)
  show ?case
  proof (cases "l = ''Unknown''")
    case True
    with Cons assms show ?thesis by simp
  next
    case False
    with Cons.prems assms obtain rows t where
      g: "greedy_weighted_avg_aggregation (df_filtered df l) ds proximity_value = Inr rows"
      and m: "make_trace cache l (length (df_filtered df l)) (Clusters rows) = Inr t"
      and d: "deposit_traces cache df ds proximity_value labels
               (frames @ [Clusters rows], traces @ [t]) = Inr (frames', traces')"
      by (auto split: sum.splits)
    from Cons.IH [OF d] obtain new where
      n: "map trace_deposit_type traces' =
          map trace_deposit_type (traces @ [t]) @ filter (\<lambda>d. d \<noteq> ''Unknown'') labels"
      "frames' = (frames @ [Clusters rows]) @ new"
      "\<forall>f \<in> set new. \<forall>row \<in> set (frame_rows f). top1_deposit_name row \<noteq> ''Unknown''"
      by blast
    have "\<forall>row \<in> set (frame_rows (Clusters rows)). top1_deposit_name row \<noteq> ''Unknown''"
      using greedy_rows_type [OF g] False by (simp add: frame_rows_def)
    with n make_trace_type [OF m] False show ?thesis
      by (intro conjI exI [of _ "Clusters rows # new"]) auto
  qed
qed

text \<open>
  C2. The claim is that, when the proximity is not 0, the records of the \<open>"Unknown"\<close>
  group are passed through to the dataset as singletons and the group is still rendered.
  The loop skips the group with \<open>continue\<close>: the dataset is the one of the labels without
  \<open>"Unknown"\<close>, no trace is added for the group and no row of the dataset has this deposit
  type; the skip raises nothing, and \<open>"Unknown"\<close> is still the last of the labels.
\<close>

theorem unknown_group_is_skipped:
  assumes "proximity_value \<noteq> 0"
  shows "get_gt_model cache df ds ranked proximity_value =
           get_gt_model cache df ds (filter (\<lambda>d. d \<noteq> ''Unknown'') ranked) proximity_value \<and>
         (\<forall>frames traces guides.
            get_gt_model cache df ds ranked proximity_value = Inr (frames, traces, guides) \<longrightarrow>
              ''Unknown'' \<notin> set (map trace_deposit_type traces) \<and>
              (\<forall>f \<in> set frames. \<forall>row \<in> set (frame_rows f).
                 top1_deposit_name row \<noteq> ''Unknown'')) \<and>
         (''Unknown'' \<in> set ranked \<longrightarrow> last (unknown_last ranked) = ''Unknown'')"
proof (intro conjI allI impI)
  show "get_gt_model cache df ds ranked proximity_value =
      get_gt_model cache df ds (filter (\<lambda>d. d \<noteq> ''Unknown'') ranked) proximity_value"
    unfolding get_gt_model_def unknown_last_filter
    using deposit_traces_skip [OF assms, of cache df ds "unknown_last ranked" "([], [])"]
    by (simp only: filter_unknown_last)
next
  fix frames traces guides
  assume "get_gt_model cache df ds ranked proximity_value = Inr (frames, traces, guides)"
  then have "deposit_traces cache df ds proximity_value (unknown_last ranked) ([], []) =
      Inr (frames, traces)"
    by (auto simp: get_gt_model_def split: sum.splits)
  from deposit_traces_nonzero [OF assms this]
  show "''Unknown'' \<notin> set (map trace_deposit_type traces)"
    and "\<forall>f \<in> set frames. \<forall>row \<in> set (frame_rows f). top1_deposit_name row \<noteq> ''Unknown''"
    by auto
next
  assume "''Unknown'' \<in> set ranked"
  then show "last (unknown_last ranked) = ''Unknown''" by (rule unknown_last_last)
qed

lemmas unknown_defs = unknown_df_def unknown_distances_def example_deposit_def
  example_commodities_def

theorem unknown_group_counterexample:
  "\<exists>frames traces.
     get_gt_model example_commodities unknown_df unknown_distances [''Porphyry'', ''Unknown''] 10 =
       Inr (frames, traces, guide_curves) \<and>
     concat (map (\<lambda>f. map ms_name (frame_rows f)) frames) = ['':: A:: B''] \<and>
     map trace_deposit_type traces = [''Porphyry'']"
  by (simp add: unknown_defs model_defs agg_defs frame_rows_def)

theorem unknown_group_is_skipped_witness:
  "(10::real) \<noteq> 0 \<and>
   get_gt_model example_commodities unknown_df unknown_distances [''Porphyry'', ''Unknown''] 10 =
     get_gt_model example_commodities unknown_df unknown_distances [''Porphyry''] 10 \<and>
   (\<exists>frames traces.
     get_gt_model example_commodities unknown_df unknown_distances [''Porphyry'', ''Unknown''] 10 =
       Inr (frames, traces, guide_curves) \<and>
     ''Unknown'' \<notin> set (map trace_deposit_type traces)) \<and>
   last (unknown_last [''Porphyry'', ''Unknown'']) = ''Unknown''"
proof -
  have h: "(10::real) \<noteq> 0" by simp
  obtain frames traces where e:
    "get_gt_model example_commodities unknown_df unknown_distances [''Porphyry'', ''Unknown''] 10 =
       Inr (frames, traces, guide_curves)"
    by (simp add: unknown_defs model_defs agg_defs)
  have f: "filter (\<lambda>d. d \<noteq> ''Unknown'') [''Porphyry'', ''Unknown''] = [''Porphyry'']"
    and u: "''Unknown'' \<in> set [''Porphyry'', ''Unknown'']" by simp_all
  note t = unknown_group_is_skipped [OF h, of example_commodities unknown_df unknown_distances
      "[''Porphyry'', ''Unknown'']"]
  from t have a:
    "get_gt_model example_commodities unknown_df unknown_distances [''Porphyry'', ''Unknown''] 10 =
     get_gt_model example_commodities unknown_df unknown_distances [''Porphyry''] 10"
    unfolding f by (rule conjunct1)
  from t e have b: "''Unknown'' \<notin> set (map trace_deposit_type traces)" by blast
  from t u have c: "last (unknown_last [''Porphyry'', ''Unknown'']) = ''Unknown''" by blast
  from h a b c e show ?thesis by blast
qed

subsection \<open>The proximity 0\<close>

lemma commodity_names_total:
  "\<forall>x \<in> set xs. cache x \<noteq> None \<Longrightarrow> \<exists>ns. commodity_names cache xs = Inr ns"
  by (induction xs) auto

lemma make_trace_records:
  assumes "\<forall>(idx, r) \<in> set df'. cache (commodity r) \<noteq> None"
  shows "\<exists>t. make_trace cache d_type n (Records df') = Inr t"
proof -
  have "\<forall>x \<in> set (map (\<lambda>(t, g, n, c). c) (map (\<lambda>(idx, r). plotted r) df')). cache x \<noteq> None"
    using assms by (auto simp: plotted_def)
  from commodity_names_total [OF this] show ?thesis
    by (auto simp: make_trace_def plot_columns_def)
qed

lemma deposit_traces_zero:
  "deposit_traces cache df ds 0 labels (frames, traces) = Inr (frames', traces') \<Longrightarrow>
   frames' = frames @ map (\<lambda>d. Records (df_filtered df d)) labels \<and>
   map trace_deposit_type traces' = map trace_deposit_type traces @ labels"
proof (induction labels arbitrary: frames traces)
  case Nil
  then show ?case by simp
next
  case (Cons l labels)
  from Cons.prems obtain t where
    m: "make_trace cache l (length (df_filtered df l)) (Records (df_filtered df l)) = Inr t"
    and d: "deposit_traces cache df ds 0 labels
             (frames @ [Records (df_filtered df l)], traces @ [t]) = Inr (frames', traces')"
    by (auto split: sum.splits)
  from Cons.IH [OF d] make_trace_type [OF m] show ?case by simp
qed

lemma deposit_traces_zero_total:
  assumes "\<forall>(idx, r) \<in> set df. cache (commodity r) \<noteq> None"
  shows "\<exists>res. deposit_traces cache df ds 0 labels acc = Inr res"
proof (induction labels arbitrary: acc)
  case Nil
  then show ?case by (cases acc) simp
next
  case (Cons l labels)
  obtain frames traces where acc: "acc = (frames, traces)" by (cases acc)
  have "\<forall>(idx, r) \<in> set (df_filtered df l). cache (commodity r) \<noteq> None"
    using assms by (auto simp: df_filtered_def)
  from make_trace_records [OF this] obtain t where
    "make_trace cache l (length (df_filtered df l)) (Records (df_filtered df l)) = Inr t"
    by blast
  with Cons.IH [of "(frames @ [Records (df_filtered df l)], traces @ [t])"] acc
  show ?case by simp
qed

text \<open>
  C6. With the proximity 0 the aggregation is the identity: the frame of every deposit
  type is the table of its own records, one row for each record and none merged, so the
  number of rows of the frame is the number of records of the group. The dataset is
  produced whenever the commodity of every record has a name in the cache.
\<close>

theorem zero_proximity_is_identity:
  "(\<forall>frames traces guides.
      get_gt_model cache df ds ranked 0 = Inr (frames, traces, guides) \<longrightarrow>
        frames = map (\<lambda>d. Records (df_filtered df d)) (unknown_last ranked) \<and>
        map (\<lambda>f. length (frame_rows f)) frames =
          map (\<lambda>d. length (df_filtered df d)) (unknown_last ranked) \<and>
        map trace_deposit_type traces = unknown_last ranked) \<and>
   ((\<forall>(idx, r) \<in> set df. cache (commodity r) \<noteq> None) \<longrightarrow>
      (\<exists>traces. get_gt_model cache df ds ranked 0 =
         Inr (map (\<lambda>d. Records (df_filtered df d)) (unknown_last ranked), traces, guide_curves)))"
proof (intro conjI allI impI)
  fix frames traces guides
  assume "get_gt_model cache df ds ranked 0 = Inr (frames, traces, guides)"
  then have "deposit_traces cache df ds 0 (unknown_last ranked) ([], []) = Inr (frames, traces)"
    by (auto simp: get_gt_model_def split: sum.splits)
  from deposit_traces_zero [OF this]
  show f: "frames = map (\<lambda>d. Records (df_filtered df d)) (unknown_last ranked)"
    and "map trace_deposit_type traces = unknown_last ranked"
    by simp_all
  show "map (\<lambda>f. length (frame_rows f)) frames =
          map (\<lambda>d. length (df_filtered df d)) (unknown_last ranked)"
    unfolding f by (simp add: frame_rows_def comp_def)
next
  assume "\<forall>(idx, r) \<in> set df. cache (commodity r) \<noteq> None"
  from deposit_traces_zero_total [OF this, of ds "unknown_last ranked" "([], [])"]
  obtain frames traces where
    d: "deposit_traces cache df ds 0 (unknown_last ranked) ([], []) = Inr (frames, traces)"
    by auto
  from deposit_traces_zero [OF d]
  have "frames = map (\<lambda>d. Records (df_filtered df d)) (unknown_last ranked)" by simp
  with d show "\<exists>traces. get_gt_model cache df ds ranked 0 =
         Inr (map (\<lambda>d. Records (df_filtered df d)) (unknown_last ranked), traces, guide_curves)"
    by (auto simp: get_gt_model_def)
qed

theorem zero_proximity_is_identity_witness:
  "\<exists>traces.
     get_gt_model example_commodities unknown_df unknown_distances [''Porphyry'', ''Unknown''] 0 =
       Inr ([Records [(0, example_deposit ''A'' ''Porphyry'' 2 10),
                      (1, example_deposit ''B'' ''Porphyry'' 1 30)],
             Records [(2, example_deposit ''U'' ''Unknown'' 0 0)]], traces, guide_curves) \<and>
     map trace_deposit_type traces = [''Porphyry'', ''Unknown'']"
proof -
  have c: "\<forall>(idx, r) \<in> set unknown_df. example_commodities (commodity r) \<noteq> None"
    by (simp add: unknown_defs)
  have u: "unknown_last [''Porphyry'', ''Unknown''] = [''Porphyry'', ''Unknown'']"
    by (simp add: unknown_last_def)
  have f: "map (\<lambda>d. Records (df_filtered unknown_df d)) [''Porphyry'', ''Unknown''] =
      [Records [(0, example_deposit ''A'' ''Porphyry'' 2 10),
                (1, example_deposit ''B'' ''Porphyry'' 1 30)],
       Records [(2, example_deposit ''U'' ''Unknown'' 0 0)]]"
    by (simp add: df_filtered_def unknown_df_def example_deposit_def)
  note t = zero_proximity_is_identity [of example_commodities unknown_df unknown_distances
      "[''Porphyry'', ''Unknown'']"]
  from t have "\<exists>traces.
      get_gt_model example_commodities unknown_df unknown_distances [''Porphyry'', ''Unknown''] 0 =
       Inr (map (\<lambda>d. Records (df_filtered unknown_df d)) (unknown_last [''Porphyry'', ''Unknown'']),
            traces, guide_curves)"
    using c by (elim conjE impE) assumption
  then obtain traces where e:
    "get_gt_model example_commodities unknown_df unknown_distances [''Porphyry'', ''Unknown''] 0 =
       Inr (map (\<lambda>d. Records (df_filtered unknown_df d)) (unknown_last [''Porphyry'', ''Unknown'']),
            traces, guide_curves)" ..
  from t have "\<forall>frames traces guides.
      get_gt_model example_commodities unknown_df unknown_distances [''Porphyry'', ''Unknown''] 0 =
        Inr (frames, traces, guides) \<longrightarrow>
        frames = map (\<lambda>d. Records (df_filtered unknown_df d)) (unknown_last [''Porphyry'', ''Unknown'']) \<and>
        map (\<lambda>f. length (frame_rows f)) frames =
          map (\<lambda>d. length (df_filtered unknown_df d)) (unknown_last [''Porphyry'', ''Unknown'']) \<and>
        map trace_deposit_type traces = unknown_last [''Porphyry'', ''Unknown'']"
    by (rule conjunct1)
  from this [rule_format, OF e]
  have m: "map trace_deposit_type traces = unknown_last [''Porphyry'', ''Unknown'']"
    by (elim conjE)
  from e [unfolded u f] m [unfolded u] show ?thesis
    by (intro exI [of _ traces] conjI)
qed

section \<open>Properties of the CSV export\<close>

lemma py_replace_no_colon:
  "CHR '':'' \<notin> set n \<Longrightarrow> py_replace ''::'' new (n @ t) = n @ py_replace ''::'' new t"
  by (induction n) auto

lemma py_replace_separator:
  "py_replace ''::'' '','' ('':: '' @ t) = '', '' @ py_replace ''::'' '','' t"
  using py_replace_no_colon [of "'' ''" "'',''" t] by simp

lemma py_replace_join:
  "\<forall>n \<in> set (x # xs). CHR '':'' \<notin> set n \<Longrightarrow>
   py_replace ''::'' '','' (join '':: '' (x # xs)) = join '', '' (x # xs)"
proof (induction xs arbitrary: x)
  case Nil
  then show ?case using py_replace_no_colon [of x "'',''" "[]"] by simp
next
  case (Cons y ys)
  then have "py_replace ''::'' '','' (join '':: '' (y # ys)) = join '', '' (y # ys)" by simp
  moreover have "py_replace ''::'' '','' (join '':: '' (x # y # ys)) =
      x @ py_replace ''::'' '','' ('':: '' @ join '':: '' (y # ys))"
    using Cons.prems py_replace_no_colon [of x] by simp
  ultimately show ?case by (simp only: py_replace_separator join.simps append_assoc)
qed

lemma clean_text_prefixed:
  assumes "take 2 x = ''::''"
  shows "clean_text x = py_replace ''::'' '','' (drop 2 x)"
proof -
  from assms obtain t where "x = ''::'' @ t"
    by (metis append_take_drop_id)
  then show ?thesis by (simp add: clean_text_def)
qed

lemma clean_text_combine:
  assumes "2 \<le> length names" and "\<forall>n \<in> set names. CHR '':'' \<notin> set n"
  shows "clean_text (combine names) = '' '' @ join '', '' names"
proof -
  from assms(1) obtain x xs where n: "names = x # xs" by (cases names) auto
  from assms(1) have c: "combine names = '':: '' @ join '':: '' names"
    by (simp add: combine_def)
  have "clean_text (combine names) = py_replace ''::'' '','' ('' '' @ join '':: '' names)"
    unfolding c by (simp add: clean_text_def)
  also have "\<dots> = '' '' @ py_replace ''::'' '','' (join '':: '' names)"
    using py_replace_no_colon [of "'' ''" "'',''"] by simp
  also have "\<dots> = '' '' @ join '', '' names"
    using py_replace_join [of x xs] assms(2) n by simp
  finally show ?thesis .
qed

text \<open>What \<open>apply\<close> does to one row of a column that it cleans without an exception.\<close>

lemma apply_column_nth:
  "apply_column get put rs = Inr rs' \<Longrightarrow>
   length rs' = length rs \<and>
   (\<forall>k < length rs. \<exists>x. get (rs ! k) = Text x \<and> rs' ! k = put (Text (clean_text x)) (rs ! k))"
proof (induction rs arbitrary: rs')
  case Nil
  then show ?case by simp
next
  case (Cons r rs)
  from Cons.prems obtain c rs0 where c: "clean_cell (get r) = Inr c"
    and a: "apply_column get put rs = Inr rs0" and e: "rs' = put c r # rs0"
    by (auto split: sum.splits)
  from c obtain x where x: "get r = Text x" "c = Text (clean_text x)"
    by (auto simp: clean_cell_def split: cell.splits)
  from Cons.IH [OF a] have l: "length rs0 = length rs"
    and n: "\<forall>k < length rs. \<exists>x. get (rs ! k) = Text x \<and> rs0 ! k = put (Text (clean_text x)) (rs ! k)"
    by simp_all
  show ?case
  proof (intro conjI allI impI)
    show "length rs' = length (r # rs)" using e l by simp
  next
    fix k
    assume "k < length (r # rs)"
    then show "\<exists>x. get ((r # rs) ! k) = Text x \<and> rs' ! k = put (Text (clean_text x)) ((r # rs) ! k)"
      using x e n by (cases k) auto
  qed
qed

lemma apply_column_not_text:
  "r \<in> set rs \<Longrightarrow> \<forall>x. get r \<noteq> Text x \<Longrightarrow> apply_column get put rs = Inl TypeError"
proof (induction rs)
  case Nil
  then show ?case by simp
next
  case (Cons a rs)
  show ?case
  proof (cases "clean_cell (get a)")
    case (Inl e)
    then have "e = TypeError" by (auto simp: clean_cell_def split: cell.splits)
    with Inl show ?thesis by simp
  next
    case (Inr c)
    with Cons have "r \<in> set rs" by (auto simp: clean_cell_def split: cell.splits)
    with Cons Inr show ?thesis by simp
  qed
qed

text \<open>
  A visible row whose site name has come back as a number makes the export raise, and
  nothing is written.
\<close>

lemma download_csv_not_text:
  assumes "r \<in> set (concat aggregated_df)" and "is_visible visible_traces r"
    and "\<forall>x. mineral_site_name r \<noteq> Text x"
  shows "download_csv aggregated_df visible_traces = None"
proof -
  from assms(1,2) have "r \<in> set (filter (is_visible visible_traces) (concat aggregated_df))"
    by simp
  from apply_column_not_text [where get = mineral_site_name, OF this assms(3)] show ?thesis
    by (simp add: download_csv_def)
qed

text \<open>
  C8. The claim is that the export strips the leading two characters of every
  \<open>"::"\<close>-prefixed \<open>ms\<close> and \<open>ms_name\<close> of the visible rows and rewrites every internal
  \<open>"::"\<close> to \<open>", "\<close>. In every file that the export writes there is one row for each
  visible row, in order, and a \<open>"::"\<close>-prefixed site name or URL has lost its leading two
  characters and has every remaining \<open>"::"\<close> rewritten to a comma alone; as the separator
  of the aggregation is \<open>":: "\<close>, the names of a field built from two or more names without
  a colon so come out separated by \<open>", "\<close>.
\<close>

theorem csv_export_cleans_fields:
  assumes "download_csv aggregated_df visible_traces = Some out"
  shows "length out = length (filter (is_visible visible_traces) (concat aggregated_df)) \<and>
         (\<forall>k < length out. \<forall>x.
            take 2 x = ''::'' \<longrightarrow>
            (mineral_site_name
               (filter (is_visible visible_traces) (concat aggregated_df) ! k) = Text x \<longrightarrow>
             mineral_site_name (out ! k) = Text (py_replace ''::'' '','' (drop 2 x))) \<and>
            (mineral_site_url
               (filter (is_visible visible_traces) (concat aggregated_df) ! k) = Text x \<longrightarrow>
             mineral_site_url (out ! k) = Text (py_replace ''::'' '','' (drop 2 x)))) \<and>
         (\<forall>names. 2 \<le> length names \<and> (\<forall>n \<in> set names. CHR '':'' \<notin> set n) \<longrightarrow>
            clean_text (combine names) = '' '' @ join '', '' names)"
proof -
  let ?df = "filter (is_visible visible_traces) (concat aggregated_df)"
  from assms obtain df1 where
    a1: "apply_column mineral_site_name (\<lambda>c r. r\<lparr> mineral_site_name := c \<rparr>) ?df = Inr df1"
    and a2: "apply_column mineral_site_url (\<lambda>c r. r\<lparr> mineral_site_url := c \<rparr>) df1 = Inr out"
    by (auto simp: download_csv_def Let_def split: sum.splits if_splits)
  note n1 = apply_column_nth [OF a1] and n2 = apply_column_nth [OF a2]
  from n1 n2 have len: "length out = length ?df" and l1: "length df1 = length ?df" by simp_all
  have fields: "mineral_site_name (?df ! k) = Text x \<longrightarrow>
        mineral_site_name (out ! k) = Text (py_replace ''::'' '','' (drop 2 x))"
    "mineral_site_url (?df ! k) = Text x \<longrightarrow>
        mineral_site_url (out ! k) = Text (py_replace ''::'' '','' (drop 2 x))"
    if k: "k < length out" and x: "take 2 x = ''::''" for k x
  proof -
    from k len have k1: "k < length ?df" by simp
    with l1 have k2: "k < length df1" by simp
    from n1 k1 obtain y where y: "mineral_site_name (?df ! k) = Text y"
      "df1 ! k = (?df ! k)\<lparr> mineral_site_name := Text (clean_text y) \<rparr>" by blast
    from n2 k2 obtain z where z: "mineral_site_url (df1 ! k) = Text z"
      "out ! k = (df1 ! k)\<lparr> mineral_site_url := Text (clean_text z) \<rparr>" by blast
    from y z x show "mineral_site_name (?df ! k) = Text x \<longrightarrow>
        mineral_site_name (out ! k) = Text (py_replace ''::'' '','' (drop 2 x))"
      by (auto simp: clean_text_prefixed)
    from y z x show "mineral_site_url (?df ! k) = Text x \<longrightarrow>
        mineral_site_url (out ! k) = Text (py_replace ''::'' '','' (drop 2 x))"
      by (auto simp: clean_text_prefixed)
  qed
  from len fields clean_text_combine show ?thesis by blast
qed

theorem csv_export_counterexample:
  "download_csv [[example_read_back]] [''Porphyry''] =
     Some [example_read_back\<lparr> mineral_site_name := Text '' A, B'',
             mineral_site_url := Text '' /derived/A, /derived/B'' \<rparr>] \<and>
   spec_clean_text '':: A:: B'' = '' A,  B'' \<and>
   '' A, B'' \<noteq> spec_clean_text '':: A:: B'' \<and>
   clean_text ''::A::B'' = ''A,B'' \<and> spec_clean_text ''::A::B'' = ''A, B'' \<and>
   clean_text ''::A::B'' \<noteq> spec_clean_text ''::A::B''"
  by (simp add: download_csv_def is_visible_def clean_cell_def example_read_back_def
      clean_text_def spec_clean_text_def)

theorem csv_export_cleans_fields_witness:
  "download_csv [[example_read_back]] [''Porphyry''] =
     Some [example_read_back\<lparr> mineral_site_name := Text '' A, B'',
             mineral_site_url := Text '' /derived/A, /derived/B'' \<rparr>] \<and>
   take 2 '':: A:: B'' = ''::'' \<and>
   mineral_site_name (filter (is_visible [''Porphyry'']) (concat [[example_read_back]]) ! 0) =
     Text '':: A:: B'' \<and>
   py_replace ''::'' '','' (drop 2 '':: A:: B'') = '' A, B'' \<and>
   clean_text (combine [''A'', ''B'']) = '' '' @ join '', '' [''A'', ''B''] \<and>
   download_csv [[digits_read_back]] [''Porphyry''] = None"
proof -
  let ?out = "[example_read_back\<lparr> mineral_site_name := Text '' A, B'',
             mineral_site_url := Text '' /derived/A, /derived/B'' \<rparr>]"
  have e: "download_csv [[example_read_back]] [''Porphyry''] = Some ?out"
    by (simp add: download_csv_def is_visible_def clean_cell_def example_read_back_def
        clean_text_def)
  have p: "take 2 '':: A:: B'' = ''::''" by simp
  have k: "0 < length ?out" by simp
  have v: "mineral_site_name
      (filter (is_visible [''Porphyry'']) (concat [[example_read_back]]) ! 0) =
     Text '':: A:: B''"
    by (simp add: is_visible_def example_read_back_def)
  note t = csv_export_cleans_fields [OF e]
  from t have "\<forall>k < length ?out. \<forall>x.
            take 2 x = ''::'' \<longrightarrow>
            (mineral_site_name
               (filter (is_visible [''Porphyry'']) (concat [[example_read_back]]) ! k) = Text x \<longrightarrow>
             mineral_site_name (?out ! k) = Text (py_replace ''::'' '','' (drop 2 x))) \<and>
            (mineral_site_url
               (filter (is_visible [''Porphyry'']) (concat [[example_read_back]]) ! k) = Text x \<longrightarrow>
             mineral_site_url (?out ! k) = Text (py_replace ''::'' '','' (drop 2 x)))"
    by (elim conjE)
  from this [rule_format, of 0 "'':: A:: B''", OF k p, THEN conjunct1, rule_format, OF v]
  have r: "py_replace ''::'' '','' (drop 2 '':: A:: B'') = '' A, B''" by simp
  from t have "\<forall>names. 2 \<le> length names \<and> (\<forall>n \<in> set names. CHR '':'' \<notin> set n) \<longrightarrow>
            clean_text (combine names) = '' '' @ join '', '' names"
    by (elim conjE)
  from this [rule_format, of "[''A'', ''B'']"]
  have c: "clean_text (combine [''A'', ''B'']) = '' '' @ join '', '' [''A'', ''B'']" by simp
  have d: "download_csv [[digits_read_back]] [''Porphyry''] = None"
    by (simp add: download_csv_def is_visible_def clean_cell_def digits_read_back_def)
  from e p v r c d show ?thesis by (intro conjI)
qed

section \<open>Properties of the lookups in the distance cache\<close>

lemma scan_nearby_keeps: "set g \<subseteq> set (fst (scan_nearby ds thr valid i js (g, P)))"
proof -
  obtain g' P' where s: "scan_nearby ds thr valid i js (g, P) = (g', P')"
    by (cases "scan_nearby ds thr valid i js (g, P)")
  from scan_nearby_added [OF s] show ?thesis unfolding s by auto
qed

lemma scan_nearby_merges:
  assumes "map_of ds (i, j) = Some (Some d)" and "d < thr" and "j \<in> valid" and "j \<noteq> i"
  shows "j \<in> set js \<Longrightarrow> j \<notin> P \<Longrightarrow> j \<in> set (fst (scan_nearby ds thr valid i js (g, P)))"
proof (induction js arbitrary: g P)
  case Nil
  then show ?case by simp
next
  case (Cons k js)
  show ?case
  proof (cases "k = j")
    case True
    with assms Cons.prems
    have "scan_nearby ds thr valid i (k # js) (g, P) =
        scan_nearby ds thr valid i js (g @ [j], insert j P)"
      by simp
    with scan_nearby_keeps [of "g @ [j]" ds thr valid i js "insert j P"] show ?thesis
      by simp
  next
    case False
    with Cons.prems have j: "j \<in> set js" by simp
    from False Cons.prems(2) have "j \<notin> insert k P" by simp
    from Cons.IH [OF j this] Cons.IH [OF j Cons.prems(2)] show ?thesis
      by (simp split: option.splits)
  qed
qed

text \<open>
  A record whose distance to the seed of a group is stored under the key of the seed and
  is below the threshold is in that group, in an earlier group or was processed before.
\<close>

lemma groups_loop_stored_key:
  assumes "map_of ds (i, j) = Some (Some d)" and "d < thr" and "j \<in> valid" and "j \<in> set sri"
  shows "set rest \<subseteq> valid \<Longrightarrow>
   groups_loop ds thr valid sri rest P = before @ (i # members) # after \<Longrightarrow>
   j \<in> P \<union> set (i # members) \<union> \<Union> (set ` set before)"
proof (induction rest arbitrary: P before)
  case Nil
  then show ?case by simp
next
  case (Cons r rest)
  from Cons.prems(1) have rv: "set rest \<subseteq> valid" and r: "r \<in> valid" by auto
  show ?case
  proof (cases "r \<in> P")
    case True
    with Cons.prems(2) have "groups_loop ds thr valid sri rest P = before @ (i # members) # after"
      by simp
    from Cons.IH [OF rv this] show ?thesis .
  next
    case False
    obtain g0 P' where s: "scan_nearby ds thr valid r sri ([r], insert r P) = (g0, P')"
      by (cases "scan_nearby ds thr valid r sri ([r], insert r P)")
    from scan_nearby_added [OF s] obtain added where a: "g0 = [r] @ added"
      "P' = insert r P \<union> set added" "set added \<subseteq> set sri \<inter> valid - {r}" by blast
    from r a have f: "filter (\<lambda>idx. idx \<in> valid) g0 = r # added"
      by (auto simp: filter_id_conv)
    have g: "groups_loop ds thr valid sri (r # rest) P =
        (r # added) # groups_loop ds thr valid sri rest P'"
      using False s f by (simp add: Let_def)
    show ?thesis
    proof (cases before)
      case Nil
      with Cons.prems(2) g have e: "i = r" "members = added" by simp_all
      show ?thesis
      proof (cases "j = i \<or> j \<in> P")
        case True
        then show ?thesis by auto
      next
        case False
        with e have "j \<noteq> r" "j \<notin> insert r P" by simp_all
        from scan_nearby_merges [OF assms(1) [unfolded e(1)] assms(2,3) this(1) assms(4) this(2),
            of "[r]"] s a
        have "j \<in> set (r # added)" by simp
        with e show ?thesis by blast
      qed
    next
      case (Cons b before')
      with Cons.prems(2) g have b: "b = r # added"
        and t: "groups_loop ds thr valid sri rest P' = before' @ (i # members) # after"
        by simp_all
      from Cons.IH [OF rv t] a b Cons show ?thesis by auto
    qed
  qed
qed

lemma map_of_cache_index:
  assumes "map_of ds (i, j) = Some v" and "j \<in> valid" and "sorted_by_distance ds = Inr sd"
  shows "j \<in> set (sorted_row_indices valid sd)"
proof -
  from assms(1) have "((i, j), v) \<in> set ds" by (rule map_of_SomeD)
  then have "j \<in> cache_indices ds" by (force simp: cache_indices_def)
  with sorted_by_distance_set [OF assms(3)] assms(2) show ?thesis
    by (simp add: set_sorted_row_indices cache_indices_def)
qed

text \<open>
  C5. The claim is that a lookup of \<open>(i, j)\<close> and a lookup of \<open>(j, i)\<close> give the same
  result, so that a distance stored under one order of the pair enables the merge. The
  aggregation looks up the key (seed, candidate) only. For every cluster that it produces,
  with the seed \<open>i\<close>: a record \<open>j\<close> with no distance under the key \<open>(i, j)\<close> is not a
  member, whatever is stored under \<open>(j, i)\<close>; and a record \<open>j\<close> of the group whose distance
  under the key \<open>(i, j)\<close> is below the threshold is in this cluster or in a cluster
  produced before it.
\<close>

theorem lookup_is_ordered:
  assumes "aggregation_with_members df ds thr = Inr out"
    and "out = before @ (i # members, row) # after"
  shows "(\<forall>j. map_of ds (i, j) = None \<or> map_of ds (i, j) = Some None \<longrightarrow> j \<notin> set members) \<and>
         (\<forall>j d. map_of ds (i, j) = Some (Some d) \<and> d < thr \<and> j \<in> valid_indices df \<longrightarrow>
            j \<in> set (i # members) \<union> \<Union> (set ` fst ` set before))"
proof (intro conjI allI impI)
  fix j
  assume n: "map_of ds (i, j) = None \<or> map_of ds (i, j) = Some None"
  from aggregation_groups(1) [OF assms(1)] assms(2)
  have "cluster_groups df ds thr = Inr (map fst out)" and "i # members \<in> set (map fst out)"
    by force+
  from cluster_groups_seed [OF this]
  have "\<forall>j \<in> set members. \<exists>d. map_of ds (i, j) = Some (Some d) \<and> d < thr" by auto
  with n show "j \<notin> set members" by auto
next
  fix j d
  assume h: "map_of ds (i, j) = Some (Some d) \<and> d < thr \<and> j \<in> valid_indices df"
  from aggregation_groups(1) [OF assms(1)] obtain sd where sd: "sorted_by_distance ds = Inr sd"
    and g: "groups_loop ds thr (valid_indices df) (sorted_row_indices (valid_indices df) sd)
            (sorted_row_indices (valid_indices df) sd) {} = map fst out"
    by (auto simp: cluster_groups_def split: sum.splits)
  from h sd have j: "j \<in> set (sorted_row_indices (valid_indices df) sd)"
    using map_of_cache_index by blast
  from g assms(2)
  have "groups_loop ds thr (valid_indices df) (sorted_row_indices (valid_indices df) sd)
            (sorted_row_indices (valid_indices df) sd) {} =
        map fst before @ (i # members) # map fst after"
    by simp
  from groups_loop_stored_key [OF _ _ _ j sorted_row_indices_valid this, of d] h
  show "j \<in> set (i # members) \<union> \<Union> (set ` fst ` set before)"
    by auto
qed

theorem lookup_symmetry_counterexample:
  "map_of ordered_distances (3, 1) = Some (Some 2) \<and> map_of ordered_distances (1, 3) = None \<and>
   map_of ordered_distances (3, 1) \<noteq> map_of ordered_distances (1, 3) \<and>
   (\<exists>r a. aggregation_with_members ordered_df ordered_distances 10 =
      Inr [([1, 2], r), ([3], a)])"
  by (simp add: ordered_df_def ordered_distances_def example_deposit_def agg_defs)

theorem lookup_is_ordered_witness:
  "\<exists>r a. aggregation_with_members ordered_df ordered_distances 10 =
       Inr [([1, 2], r), ([3], a)] \<and>
     map_of ordered_distances (1, 3) = None \<and> 3 \<notin> set [2::nat] \<and>
     map_of ordered_distances (1, 2) = Some (Some 1) \<and> 2 \<in> set [1, 2::nat] \<and>
     map_of ordered_distances (3, 1) = Some (Some 2) \<and>
     1 \<in> set [3::nat] \<union> \<Union> (set ` fst ` set [([1, 2::nat], r)])"
proof -
  obtain r a where e: "aggregation_with_members ordered_df ordered_distances 10 =
       Inr [([1, 2], r), ([3], a)]"
    by (simp add: ordered_df_def ordered_distances_def example_deposit_def agg_defs)
  have o1: "[([1, 2], r), ([3], a)] = [] @ (1 # [2], r) # [([3], a)]" by simp
  have o2: "[([1, 2], r), ([3], a)] = [([1, 2], r)] @ (3 # [], a) # []" by simp
  have m13: "map_of ordered_distances (1, 3) = None"
    and m12: "map_of ordered_distances (1, 2) = Some (Some 1)"
    and m31: "map_of ordered_distances (3, 1) = Some (Some 2)"
    by (simp_all add: ordered_distances_def)
  have v: "1 \<in> valid_indices ordered_df" "2 \<in> valid_indices ordered_df"
    by (simp_all add: valid_indices_def ordered_df_def)
  note t1 = lookup_is_ordered [OF e o1] and t2 = lookup_is_ordered [OF e o2]
  from t1 have "\<forall>j. map_of ordered_distances (1, j) = None \<or>
      map_of ordered_distances (1, j) = Some None \<longrightarrow> j \<notin> set [2]"
    by (elim conjE)
  from this [rule_format, of 3] m13 have a1: "3 \<notin> set [2::nat]" by simp
  from t1 have "\<forall>j d. map_of ordered_distances (1, j) = Some (Some d) \<and> d < 10 \<and>
      j \<in> valid_indices ordered_df \<longrightarrow> j \<in> set (1 # [2]) \<union> \<Union> (set ` fst ` set ([] :: (nat list \<times> gt_row) list))"
    by (elim conjE)
  from this [rule_format, of 2 1] m12 v have a2: "2 \<in> set [1, 2::nat]" by simp
  from t2 have "\<forall>j d. map_of ordered_distances (3, j) = Some (Some d) \<and> d < 10 \<and>
      j \<in> valid_indices ordered_df \<longrightarrow>
      j \<in> set (3 # []) \<union> \<Union> (set ` fst ` set [([1, 2], r)])"
    by (elim conjE)
  from this [rule_format, of 1 2] m31 v
  have a3: "1 \<in> set [3::nat] \<union> \<Union> (set ` fst ` set [([1, 2::nat], r)])" by simp
  from e m13 a1 m12 a2 m31 a3 show ?thesis by (intro exI conjI)
qed

end
